theory Spec2Isabelle
  imports Complex_Main "HOL-Library.Multiset" "HOL-Library.Sublist" "HOL-Library.Log_Nat"
    "HOL-Library.Code_Target_Nat"
begin

section \<open>Strings\<close>

text \<open>
  A JavaScript string is a sequence of UTF-16 code units: a \<open>jstring\<close> is the list of their
  numbers (each below 65536), and \<^verbatim>\<open>length\<close>, \<^verbatim>\<open>includes\<close>, \<^verbatim>\<open>split\<close> and the
  regular expressions of these scripts (none has the flag \<^verbatim>\<open>u\<close>) work on code units.
  \<open>ascii\<close> gives the string of an ASCII literal.
\<close>

type_synonym jstring = "nat list"

definition code :: "char \<Rightarrow> nat" where
  "code c = of_char c"

definition ascii :: "string \<Rightarrow> jstring" where
  "ascii s = map code s"

definition backslash :: nat where
  "backslash = 0x5C"

definition newline :: nat where
  "newline = 0x0A"

definition space :: nat where
  "space = 0x20"

definition is_ascii :: "nat \<Rightarrow> bool" where
  "is_ascii c \<longleftrightarrow> c < 128"

definition ascii_only :: "jstring \<Rightarrow> bool" where
  "ascii_only s \<longleftrightarrow> list_all is_ascii s"

definition is_digit :: "nat \<Rightarrow> bool" where
  "is_digit c \<longleftrightarrow> 48 \<le> c \<and> c \<le> 57"

definition is_upper :: "nat \<Rightarrow> bool" where
  "is_upper c \<longleftrightarrow> 65 \<le> c \<and> c \<le> 90"

definition is_lower :: "nat \<Rightarrow> bool" where
  "is_lower c \<longleftrightarrow> 97 \<le> c \<and> c \<le> 122"

text \<open>The class \<^verbatim>\<open>\w\<close> of a regular expression without the flag \<^verbatim>\<open>u\<close>:
  \<^verbatim>\<open>[A-Za-z0-9_]\<close>, also under the flag \<^verbatim>\<open>i\<close>.\<close>

definition is_word :: "nat \<Rightarrow> bool" where
  "is_word c \<longleftrightarrow> is_digit c \<or> is_upper c \<or> is_lower c \<or> c = 0x5F"

text \<open>The class \<^verbatim>\<open>\s\<close>, which is also what \<^verbatim>\<open>trim\<close> removes: the white space and
  the line terminators of ECMAScript.\<close>

definition WHITE_SPACE :: "nat list" where
  "WHITE_SPACE =
    [0x09, 0x0A, 0x0B, 0x0C, 0x0D, 0x20, 0xA0, 0x1680,
     0x2000, 0x2001, 0x2002, 0x2003, 0x2004, 0x2005, 0x2006, 0x2007, 0x2008, 0x2009, 0x200A,
     0x2028, 0x2029, 0x202F, 0x205F, 0x3000, 0xFEFF]"

definition is_space :: "nat \<Rightarrow> bool" where
  "is_space c \<longleftrightarrow> c \<in> set WHITE_SPACE"

text \<open>\<^verbatim>\<open>String.prototype.includes\<close>: the pattern occurs at some position of the text.\<close>

fun includes_str :: "jstring \<Rightarrow> jstring \<Rightarrow> bool" where
  "includes_str [] p = (p = [])"
| "includes_str (x # xs) p = (prefix p (x # xs) \<or> includes_str xs p)"

section \<open>Case mapping\<close>

text \<open>
  \<^verbatim>\<open>String.prototype.toLowerCase\<close> maps the code points of the string by the Unicode
  default case conversion (the tables below are those of Unicode 14.0), and the flag \<^verbatim>\<open>i\<close>
  of a regular expression compares code units by their upper-case forms. A range
  \<open>(lo, hi, step, d)\<close> of a mapping table sends \<open>lo\<close>, \<open>lo + step\<close>, ... up to \<open>hi\<close> each to
  itself plus \<open>d\<close>; the tables hold the code points from 128 on.
\<close>

definition in_ranges :: "(nat \<times> nat) list \<Rightarrow> nat \<Rightarrow> bool" where
  "in_ranges table c = list_ex (\<lambda>r. fst r \<le> c \<and> c \<le> snd r) table"

definition map_ranges :: "(nat \<times> nat \<times> nat \<times> int) list \<Rightarrow> nat \<Rightarrow> nat" where
  "map_ranges table c =
     (case find (\<lambda>r. fst r \<le> c \<and> c \<le> fst (snd r) \<and> (c - fst r) mod fst (snd (snd r)) = 0) table of
        None \<Rightarrow> c
      | Some r \<Rightarrow> nat (int c + snd (snd (snd r))))"

definition LOWER_RANGES :: "(nat \<times> nat \<times> nat \<times> int) list" where
  "LOWER_RANGES =
    [(0xC0, 0xD6, 1, 32), (0xD8, 0xDE, 1, 32), (0x100, 0x12E, 2, 1),
     (0x132, 0x136, 2, 1), (0x139, 0x147, 2, 1), (0x14A, 0x176, 2, 1),
     (0x178, 0x178, 1, - 121), (0x179, 0x17D, 2, 1), (0x181, 0x181, 1, 210),
     (0x182, 0x184, 2, 1), (0x186, 0x186, 1, 206), (0x187, 0x187, 1, 1),
     (0x189, 0x18A, 1, 205), (0x18B, 0x18B, 1, 1), (0x18E, 0x18E, 1, 79),
     (0x18F, 0x18F, 1, 202), (0x190, 0x190, 1, 203), (0x191, 0x191, 1, 1),
     (0x193, 0x193, 1, 205), (0x194, 0x194, 1, 207), (0x196, 0x196, 1, 211),
     (0x197, 0x197, 1, 209), (0x198, 0x198, 1, 1), (0x19C, 0x19C, 1, 211),
     (0x19D, 0x19D, 1, 213), (0x19F, 0x19F, 1, 214), (0x1A0, 0x1A4, 2, 1),
     (0x1A6, 0x1A6, 1, 218), (0x1A7, 0x1A7, 1, 1), (0x1A9, 0x1A9, 1, 218),
     (0x1AC, 0x1AC, 1, 1), (0x1AE, 0x1AE, 1, 218), (0x1AF, 0x1AF, 1, 1),
     (0x1B1, 0x1B2, 1, 217), (0x1B3, 0x1B5, 2, 1), (0x1B7, 0x1B7, 1, 219),
     (0x1B8, 0x1B8, 1, 1), (0x1BC, 0x1BC, 1, 1), (0x1C4, 0x1C4, 1, 2),
     (0x1C5, 0x1C5, 1, 1), (0x1C7, 0x1C7, 1, 2), (0x1C8, 0x1C8, 1, 1),
     (0x1CA, 0x1CA, 1, 2), (0x1CB, 0x1DB, 2, 1), (0x1DE, 0x1EE, 2, 1),
     (0x1F1, 0x1F1, 1, 2), (0x1F2, 0x1F4, 2, 1), (0x1F6, 0x1F6, 1, - 97),
     (0x1F7, 0x1F7, 1, - 56), (0x1F8, 0x21E, 2, 1), (0x220, 0x220, 1, - 130),
     (0x222, 0x232, 2, 1), (0x23A, 0x23A, 1, 10795), (0x23B, 0x23B, 1, 1),
     (0x23D, 0x23D, 1, - 163), (0x23E, 0x23E, 1, 10792), (0x241, 0x241, 1, 1),
     (0x243, 0x243, 1, - 195), (0x244, 0x244, 1, 69), (0x245, 0x245, 1, 71),
     (0x246, 0x24E, 2, 1), (0x370, 0x372, 2, 1), (0x376, 0x376, 1, 1),
     (0x37F, 0x37F, 1, 116), (0x386, 0x386, 1, 38), (0x388, 0x38A, 1, 37),
     (0x38C, 0x38C, 1, 64), (0x38E, 0x38F, 1, 63), (0x391, 0x3A1, 1, 32),
     (0x3A4, 0x3AB, 1, 32), (0x3CF, 0x3CF, 1, 8), (0x3D8, 0x3EE, 2, 1),
     (0x3F4, 0x3F4, 1, - 60), (0x3F7, 0x3F7, 1, 1), (0x3F9, 0x3F9, 1, - 7),
     (0x3FA, 0x3FA, 1, 1), (0x3FD, 0x3FF, 1, - 130), (0x400, 0x40F, 1, 80),
     (0x410, 0x42F, 1, 32), (0x460, 0x480, 2, 1), (0x48A, 0x4BE, 2, 1),
     (0x4C0, 0x4C0, 1, 15), (0x4C1, 0x4CD, 2, 1), (0x4D0, 0x52E, 2, 1),
     (0x531, 0x556, 1, 48), (0x10A0, 0x10C5, 1, 7264), (0x10C7, 0x10C7, 1, 7264),
     (0x10CD, 0x10CD, 1, 7264), (0x13A0, 0x13EF, 1, 38864), (0x13F0, 0x13F5, 1, 8),
     (0x1C90, 0x1CBA, 1, - 3008), (0x1CBD, 0x1CBF, 1, - 3008), (0x1E00, 0x1E94, 2, 1),
     (0x1E9E, 0x1E9E, 1, - 7615), (0x1EA0, 0x1EFE, 2, 1), (0x1F08, 0x1F0F, 1, - 8),
     (0x1F18, 0x1F1D, 1, - 8), (0x1F28, 0x1F2F, 1, - 8), (0x1F38, 0x1F3F, 1, - 8),
     (0x1F48, 0x1F4D, 1, - 8), (0x1F59, 0x1F5F, 2, - 8), (0x1F68, 0x1F6F, 1, - 8),
     (0x1F88, 0x1F8F, 1, - 8), (0x1F98, 0x1F9F, 1, - 8), (0x1FA8, 0x1FAF, 1, - 8),
     (0x1FB8, 0x1FB9, 1, - 8), (0x1FBA, 0x1FBB, 1, - 74), (0x1FBC, 0x1FBC, 1, - 9),
     (0x1FC8, 0x1FCB, 1, - 86), (0x1FCC, 0x1FCC, 1, - 9), (0x1FD8, 0x1FD9, 1, - 8),
     (0x1FDA, 0x1FDB, 1, - 100), (0x1FE8, 0x1FE9, 1, - 8), (0x1FEA, 0x1FEB, 1, - 112),
     (0x1FEC, 0x1FEC, 1, - 7), (0x1FF8, 0x1FF9, 1, - 128), (0x1FFA, 0x1FFB, 1, - 126),
     (0x1FFC, 0x1FFC, 1, - 9), (0x2126, 0x2126, 1, - 7517), (0x212A, 0x212A, 1, - 8383),
     (0x212B, 0x212B, 1, - 8262), (0x2132, 0x2132, 1, 28), (0x2160, 0x216F, 1, 16),
     (0x2183, 0x2183, 1, 1), (0x24B6, 0x24CF, 1, 26), (0x2C00, 0x2C2F, 1, 48),
     (0x2C60, 0x2C60, 1, 1), (0x2C62, 0x2C62, 1, - 10743), (0x2C63, 0x2C63, 1, - 3814),
     (0x2C64, 0x2C64, 1, - 10727), (0x2C67, 0x2C6B, 2, 1), (0x2C6D, 0x2C6D, 1, - 10780),
     (0x2C6E, 0x2C6E, 1, - 10749), (0x2C6F, 0x2C6F, 1, - 10783), (0x2C70, 0x2C70, 1, - 10782),
     (0x2C72, 0x2C72, 1, 1), (0x2C75, 0x2C75, 1, 1), (0x2C7E, 0x2C7F, 1, - 10815),
     (0x2C80, 0x2CE2, 2, 1), (0x2CEB, 0x2CED, 2, 1), (0x2CF2, 0x2CF2, 1, 1),
     (0xA640, 0xA66C, 2, 1), (0xA680, 0xA69A, 2, 1), (0xA722, 0xA72E, 2, 1),
     (0xA732, 0xA76E, 2, 1), (0xA779, 0xA77B, 2, 1), (0xA77D, 0xA77D, 1, - 35332),
     (0xA77E, 0xA786, 2, 1), (0xA78B, 0xA78B, 1, 1), (0xA78D, 0xA78D, 1, - 42280),
     (0xA790, 0xA792, 2, 1), (0xA796, 0xA7A8, 2, 1), (0xA7AA, 0xA7AA, 1, - 42308),
     (0xA7AB, 0xA7AB, 1, - 42319), (0xA7AC, 0xA7AC, 1, - 42315), (0xA7AD, 0xA7AD, 1, - 42305),
     (0xA7AE, 0xA7AE, 1, - 42308), (0xA7B0, 0xA7B0, 1, - 42258), (0xA7B1, 0xA7B1, 1, - 42282),
     (0xA7B2, 0xA7B2, 1, - 42261), (0xA7B3, 0xA7B3, 1, 928), (0xA7B4, 0xA7C2, 2, 1),
     (0xA7C4, 0xA7C4, 1, - 48), (0xA7C5, 0xA7C5, 1, - 42307), (0xA7C6, 0xA7C6, 1, - 35384),
     (0xA7C7, 0xA7C9, 2, 1), (0xA7D0, 0xA7D0, 1, 1), (0xA7D6, 0xA7D8, 2, 1),
     (0xA7F5, 0xA7F5, 1, 1), (0xFF21, 0xFF3A, 1, 32), (0x10400, 0x10427, 1, 40),
     (0x104B0, 0x104D3, 1, 40), (0x10570, 0x10594, 2, 39), (0x10571, 0x10579, 2, 39),
     (0x1057D, 0x10589, 2, 39), (0x1058D, 0x10591, 2, 39), (0x10595, 0x10595, 1, 39),
     (0x10C80, 0x10CB2, 1, 64), (0x118A0, 0x118BF, 1, 32), (0x16E40, 0x16E5F, 1, 32),
     (0x1E900, 0x1E921, 1, 34)]"

definition UPPER_RANGES :: "(nat \<times> nat \<times> nat \<times> int) list" where
  "UPPER_RANGES =
    [(0xB5, 0xB5, 1, 743), (0xE0, 0xF6, 1, - 32), (0xF8, 0xFE, 1, - 32),
     (0xFF, 0xFF, 1, 121), (0x101, 0x12F, 2, - 1), (0x131, 0x131, 1, - 232),
     (0x133, 0x137, 2, - 1), (0x13A, 0x148, 2, - 1), (0x14B, 0x177, 2, - 1),
     (0x17A, 0x17E, 2, - 1), (0x17F, 0x17F, 1, - 300), (0x180, 0x180, 1, 195),
     (0x183, 0x185, 2, - 1), (0x188, 0x188, 1, - 1), (0x18C, 0x18C, 1, - 1),
     (0x192, 0x192, 1, - 1), (0x195, 0x195, 1, 97), (0x199, 0x199, 1, - 1),
     (0x19A, 0x19A, 1, 163), (0x19E, 0x19E, 1, 130), (0x1A1, 0x1A5, 2, - 1),
     (0x1A8, 0x1A8, 1, - 1), (0x1AD, 0x1AD, 1, - 1), (0x1B0, 0x1B0, 1, - 1),
     (0x1B4, 0x1B6, 2, - 1), (0x1B9, 0x1B9, 1, - 1), (0x1BD, 0x1BD, 1, - 1),
     (0x1BF, 0x1BF, 1, 56), (0x1C5, 0x1C5, 1, - 1), (0x1C6, 0x1C6, 1, - 2),
     (0x1C8, 0x1C8, 1, - 1), (0x1C9, 0x1C9, 1, - 2), (0x1CB, 0x1CB, 1, - 1),
     (0x1CC, 0x1CC, 1, - 2), (0x1CE, 0x1DC, 2, - 1), (0x1DD, 0x1DD, 1, - 79),
     (0x1DF, 0x1EF, 2, - 1), (0x1F2, 0x1F2, 1, - 1), (0x1F3, 0x1F3, 1, - 2),
     (0x1F5, 0x1F5, 1, - 1), (0x1F9, 0x21F, 2, - 1), (0x223, 0x233, 2, - 1),
     (0x23C, 0x23C, 1, - 1), (0x23F, 0x240, 1, 10815), (0x242, 0x242, 1, - 1),
     (0x247, 0x24F, 2, - 1), (0x250, 0x250, 1, 10783), (0x251, 0x251, 1, 10780),
     (0x252, 0x252, 1, 10782), (0x253, 0x253, 1, - 210), (0x254, 0x254, 1, - 206),
     (0x256, 0x257, 1, - 205), (0x259, 0x259, 1, - 202), (0x25B, 0x25B, 1, - 203),
     (0x25C, 0x25C, 1, 42319), (0x260, 0x260, 1, - 205), (0x261, 0x261, 1, 42315),
     (0x263, 0x263, 1, - 207), (0x265, 0x265, 1, 42280), (0x266, 0x266, 1, 42308),
     (0x268, 0x268, 1, - 209), (0x269, 0x269, 1, - 211), (0x26A, 0x26A, 1, 42308),
     (0x26B, 0x26B, 1, 10743), (0x26C, 0x26C, 1, 42305), (0x26F, 0x26F, 1, - 211),
     (0x271, 0x271, 1, 10749), (0x272, 0x272, 1, - 213), (0x275, 0x275, 1, - 214),
     (0x27D, 0x27D, 1, 10727), (0x280, 0x280, 1, - 218), (0x282, 0x282, 1, 42307),
     (0x283, 0x283, 1, - 218), (0x287, 0x287, 1, 42282), (0x288, 0x288, 1, - 218),
     (0x289, 0x289, 1, - 69), (0x28A, 0x28B, 1, - 217), (0x28C, 0x28C, 1, - 71),
     (0x292, 0x292, 1, - 219), (0x29D, 0x29D, 1, 42261), (0x29E, 0x29E, 1, 42258),
     (0x345, 0x345, 1, 84), (0x371, 0x373, 2, - 1), (0x377, 0x377, 1, - 1),
     (0x37B, 0x37D, 1, 130), (0x3AC, 0x3AC, 1, - 38), (0x3AD, 0x3AF, 1, - 37),
     (0x3B1, 0x3C1, 1, - 32), (0x3C2, 0x3C2, 1, - 31), (0x3C3, 0x3CB, 1, - 32),
     (0x3CC, 0x3CC, 1, - 64), (0x3CD, 0x3CE, 1, - 63), (0x3D0, 0x3D0, 1, - 62),
     (0x3D1, 0x3D1, 1, - 57), (0x3D5, 0x3D5, 1, - 47), (0x3D6, 0x3D6, 1, - 54),
     (0x3D7, 0x3D7, 1, - 8), (0x3D9, 0x3EF, 2, - 1), (0x3F0, 0x3F0, 1, - 86),
     (0x3F1, 0x3F1, 1, - 80), (0x3F2, 0x3F2, 1, 7), (0x3F3, 0x3F3, 1, - 116),
     (0x3F5, 0x3F5, 1, - 96), (0x3F8, 0x3F8, 1, - 1), (0x3FB, 0x3FB, 1, - 1),
     (0x430, 0x44F, 1, - 32), (0x450, 0x45F, 1, - 80), (0x461, 0x481, 2, - 1),
     (0x48B, 0x4BF, 2, - 1), (0x4C2, 0x4CE, 2, - 1), (0x4CF, 0x4CF, 1, - 15),
     (0x4D1, 0x52F, 2, - 1), (0x561, 0x586, 1, - 48), (0x10D0, 0x10FA, 1, 3008),
     (0x10FD, 0x10FF, 1, 3008), (0x13F8, 0x13FD, 1, - 8), (0x1C80, 0x1C80, 1, - 6254),
     (0x1C81, 0x1C81, 1, - 6253), (0x1C82, 0x1C82, 1, - 6244), (0x1C83, 0x1C84, 1, - 6242),
     (0x1C85, 0x1C85, 1, - 6243), (0x1C86, 0x1C86, 1, - 6236), (0x1C87, 0x1C87, 1, - 6181),
     (0x1C88, 0x1C88, 1, 35266), (0x1D79, 0x1D79, 1, 35332), (0x1D7D, 0x1D7D, 1, 3814),
     (0x1D8E, 0x1D8E, 1, 35384), (0x1E01, 0x1E95, 2, - 1), (0x1E9B, 0x1E9B, 1, - 59),
     (0x1EA1, 0x1EFF, 2, - 1), (0x1F00, 0x1F07, 1, 8), (0x1F10, 0x1F15, 1, 8),
     (0x1F20, 0x1F27, 1, 8), (0x1F30, 0x1F37, 1, 8), (0x1F40, 0x1F45, 1, 8),
     (0x1F51, 0x1F57, 2, 8), (0x1F60, 0x1F67, 1, 8), (0x1F70, 0x1F71, 1, 74),
     (0x1F72, 0x1F75, 1, 86), (0x1F76, 0x1F77, 1, 100), (0x1F78, 0x1F79, 1, 128),
     (0x1F7A, 0x1F7B, 1, 112), (0x1F7C, 0x1F7D, 1, 126), (0x1FB0, 0x1FB1, 1, 8),
     (0x1FBE, 0x1FBE, 1, - 7205), (0x1FD0, 0x1FD1, 1, 8), (0x1FE0, 0x1FE1, 1, 8),
     (0x1FE5, 0x1FE5, 1, 7), (0x214E, 0x214E, 1, - 28), (0x2170, 0x217F, 1, - 16),
     (0x2184, 0x2184, 1, - 1), (0x24D0, 0x24E9, 1, - 26), (0x2C30, 0x2C5F, 1, - 48),
     (0x2C61, 0x2C61, 1, - 1), (0x2C65, 0x2C65, 1, - 10795), (0x2C66, 0x2C66, 1, - 10792),
     (0x2C68, 0x2C6C, 2, - 1), (0x2C73, 0x2C73, 1, - 1), (0x2C76, 0x2C76, 1, - 1),
     (0x2C81, 0x2CE3, 2, - 1), (0x2CEC, 0x2CEE, 2, - 1), (0x2CF3, 0x2CF3, 1, - 1),
     (0x2D00, 0x2D25, 1, - 7264), (0x2D27, 0x2D27, 1, - 7264), (0x2D2D, 0x2D2D, 1, - 7264),
     (0xA641, 0xA66D, 2, - 1), (0xA681, 0xA69B, 2, - 1), (0xA723, 0xA72F, 2, - 1),
     (0xA733, 0xA76F, 2, - 1), (0xA77A, 0xA77C, 2, - 1), (0xA77F, 0xA787, 2, - 1),
     (0xA78C, 0xA78C, 1, - 1), (0xA791, 0xA793, 2, - 1), (0xA794, 0xA794, 1, 48),
     (0xA797, 0xA7A9, 2, - 1), (0xA7B5, 0xA7C3, 2, - 1), (0xA7C8, 0xA7CA, 2, - 1),
     (0xA7D1, 0xA7D1, 1, - 1), (0xA7D7, 0xA7D9, 2, - 1), (0xA7F6, 0xA7F6, 1, - 1),
     (0xAB53, 0xAB53, 1, - 928), (0xAB70, 0xABBF, 1, - 38864), (0xFF41, 0xFF5A, 1, - 32)]"

definition CASED_RANGES :: "(nat \<times> nat) list" where
  "CASED_RANGES =
    [(0x41, 0x5A), (0x61, 0x7A), (0xAA, 0xAA), (0xB5, 0xB5), (0xBA, 0xBA),
     (0xC0, 0xD6), (0xD8, 0xF6), (0xF8, 0x1BA), (0x1BC, 0x1BF), (0x1C4, 0x293),
     (0x295, 0x2AF), (0x370, 0x373), (0x376, 0x377), (0x37B, 0x37D), (0x37F, 0x37F),
     (0x386, 0x386), (0x388, 0x38A), (0x38C, 0x38C), (0x38E, 0x3A1), (0x3A3, 0x3F5),
     (0x3F7, 0x481), (0x48A, 0x52F), (0x531, 0x556), (0x560, 0x588), (0x10A0, 0x10C5),
     (0x10C7, 0x10C7), (0x10CD, 0x10CD), (0x10D0, 0x10FA), (0x10FD, 0x10FF), (0x13A0, 0x13F5),
     (0x13F8, 0x13FD), (0x1C80, 0x1C88), (0x1C90, 0x1CBA), (0x1CBD, 0x1CBF), (0x1D00, 0x1D2B),
     (0x1D6B, 0x1D77), (0x1D79, 0x1D9A), (0x1E00, 0x1F15), (0x1F18, 0x1F1D), (0x1F20, 0x1F45),
     (0x1F48, 0x1F4D), (0x1F50, 0x1F57), (0x1F59, 0x1F59), (0x1F5B, 0x1F5B), (0x1F5D, 0x1F5D),
     (0x1F5F, 0x1F7D), (0x1F80, 0x1FB4), (0x1FB6, 0x1FBC), (0x1FBE, 0x1FBE), (0x1FC2, 0x1FC4),
     (0x1FC6, 0x1FCC), (0x1FD0, 0x1FD3), (0x1FD6, 0x1FDB), (0x1FE0, 0x1FEC), (0x1FF2, 0x1FF4),
     (0x1FF6, 0x1FFC), (0x2102, 0x2102), (0x2107, 0x2107), (0x210A, 0x2113), (0x2115, 0x2115),
     (0x2119, 0x211D), (0x2124, 0x2124), (0x2126, 0x2126), (0x2128, 0x2128), (0x212A, 0x212D),
     (0x212F, 0x2134), (0x2139, 0x2139), (0x213C, 0x213F), (0x2145, 0x2149), (0x214E, 0x214E),
     (0x2160, 0x217F), (0x2183, 0x2184), (0x24B6, 0x24E9), (0x2C00, 0x2C7B), (0x2C7E, 0x2CE4),
     (0x2CEB, 0x2CEE), (0x2CF2, 0x2CF3), (0x2D00, 0x2D25), (0x2D27, 0x2D27), (0x2D2D, 0x2D2D),
     (0xA640, 0xA66D), (0xA680, 0xA69B), (0xA722, 0xA76F), (0xA771, 0xA787), (0xA78B, 0xA78E),
     (0xA790, 0xA7CA), (0xA7D0, 0xA7D1), (0xA7D3, 0xA7D3), (0xA7D5, 0xA7D9), (0xA7F5, 0xA7F6),
     (0xA7FA, 0xA7FA), (0xAB30, 0xAB5A), (0xAB60, 0xAB68), (0xAB70, 0xABBF), (0xFB00, 0xFB06),
     (0xFB13, 0xFB17), (0xFF21, 0xFF3A), (0xFF41, 0xFF5A), (0x10400, 0x1044F), (0x104B0, 0x104D3),
     (0x104D8, 0x104FB), (0x10570, 0x1057A), (0x1057C, 0x1058A), (0x1058C, 0x10592), (0x10594, 0x10595),
     (0x10597, 0x105A1), (0x105A3, 0x105B1), (0x105B3, 0x105B9), (0x105BB, 0x105BC), (0x10C80, 0x10CB2),
     (0x10CC0, 0x10CF2), (0x118A0, 0x118DF), (0x16E40, 0x16E7F), (0x1D400, 0x1D454), (0x1D456, 0x1D49C),
     (0x1D49E, 0x1D49F), (0x1D4A2, 0x1D4A2), (0x1D4A5, 0x1D4A6), (0x1D4A9, 0x1D4AC), (0x1D4AE, 0x1D4B9),
     (0x1D4BB, 0x1D4BB), (0x1D4BD, 0x1D4C3), (0x1D4C5, 0x1D505), (0x1D507, 0x1D50A), (0x1D50D, 0x1D514),
     (0x1D516, 0x1D51C), (0x1D51E, 0x1D539), (0x1D53B, 0x1D53E), (0x1D540, 0x1D544), (0x1D546, 0x1D546),
     (0x1D54A, 0x1D550), (0x1D552, 0x1D6A5), (0x1D6A8, 0x1D6C0), (0x1D6C2, 0x1D6DA), (0x1D6DC, 0x1D6FA),
     (0x1D6FC, 0x1D714), (0x1D716, 0x1D734), (0x1D736, 0x1D74E), (0x1D750, 0x1D76E), (0x1D770, 0x1D788),
     (0x1D78A, 0x1D7A8), (0x1D7AA, 0x1D7C2), (0x1D7C4, 0x1D7CB), (0x1DF00, 0x1DF09), (0x1DF0B, 0x1DF1E),
     (0x1E900, 0x1E943), (0x1F130, 0x1F149), (0x1F150, 0x1F169), (0x1F170, 0x1F189)]"

definition CASE_IGNORABLE_RANGES :: "(nat \<times> nat) list" where
  "CASE_IGNORABLE_RANGES =
    [(0x27, 0x27), (0x2E, 0x2E), (0x3A, 0x3A), (0x5E, 0x5E), (0x60, 0x60),
     (0xA8, 0xA8), (0xAD, 0xAD), (0xAF, 0xAF), (0xB4, 0xB4), (0xB7, 0xB8),
     (0x2B0, 0x36F), (0x374, 0x375), (0x37A, 0x37A), (0x384, 0x385), (0x387, 0x387),
     (0x483, 0x489), (0x559, 0x559), (0x55F, 0x55F), (0x591, 0x5BD), (0x5BF, 0x5BF),
     (0x5C1, 0x5C2), (0x5C4, 0x5C5), (0x5C7, 0x5C7), (0x5F4, 0x5F4), (0x600, 0x605),
     (0x610, 0x61A), (0x61C, 0x61C), (0x640, 0x640), (0x64B, 0x65F), (0x670, 0x670),
     (0x6D6, 0x6DD), (0x6DF, 0x6E8), (0x6EA, 0x6ED), (0x70F, 0x70F), (0x711, 0x711),
     (0x730, 0x74A), (0x7A6, 0x7B0), (0x7EB, 0x7F5), (0x7FA, 0x7FA), (0x7FD, 0x7FD),
     (0x816, 0x82D), (0x859, 0x85B), (0x888, 0x888), (0x890, 0x891), (0x898, 0x89F),
     (0x8C9, 0x902), (0x93A, 0x93A), (0x93C, 0x93C), (0x941, 0x948), (0x94D, 0x94D),
     (0x951, 0x957), (0x962, 0x963), (0x971, 0x971), (0x981, 0x981), (0x9BC, 0x9BC),
     (0x9C1, 0x9C4), (0x9CD, 0x9CD), (0x9E2, 0x9E3), (0x9FE, 0x9FE), (0xA01, 0xA02),
     (0xA3C, 0xA3C), (0xA41, 0xA42), (0xA47, 0xA48), (0xA4B, 0xA4D), (0xA51, 0xA51),
     (0xA70, 0xA71), (0xA75, 0xA75), (0xA81, 0xA82), (0xABC, 0xABC), (0xAC1, 0xAC5),
     (0xAC7, 0xAC8), (0xACD, 0xACD), (0xAE2, 0xAE3), (0xAFA, 0xAFF), (0xB01, 0xB01),
     (0xB3C, 0xB3C), (0xB3F, 0xB3F), (0xB41, 0xB44), (0xB4D, 0xB4D), (0xB55, 0xB56),
     (0xB62, 0xB63), (0xB82, 0xB82), (0xBC0, 0xBC0), (0xBCD, 0xBCD), (0xC00, 0xC00),
     (0xC04, 0xC04), (0xC3C, 0xC3C), (0xC3E, 0xC40), (0xC46, 0xC48), (0xC4A, 0xC4D),
     (0xC55, 0xC56), (0xC62, 0xC63), (0xC81, 0xC81), (0xCBC, 0xCBC), (0xCBF, 0xCBF),
     (0xCC6, 0xCC6), (0xCCC, 0xCCD), (0xCE2, 0xCE3), (0xD00, 0xD01), (0xD3B, 0xD3C),
     (0xD41, 0xD44), (0xD4D, 0xD4D), (0xD62, 0xD63), (0xD81, 0xD81), (0xDCA, 0xDCA),
     (0xDD2, 0xDD4), (0xDD6, 0xDD6), (0xE31, 0xE31), (0xE34, 0xE3A), (0xE46, 0xE4E),
     (0xEB1, 0xEB1), (0xEB4, 0xEBC), (0xEC6, 0xEC6), (0xEC8, 0xECD), (0xF18, 0xF19),
     (0xF35, 0xF35), (0xF37, 0xF37), (0xF39, 0xF39), (0xF71, 0xF7E), (0xF80, 0xF84),
     (0xF86, 0xF87), (0xF8D, 0xF97), (0xF99, 0xFBC), (0xFC6, 0xFC6), (0x102D, 0x1030),
     (0x1032, 0x1037), (0x1039, 0x103A), (0x103D, 0x103E), (0x1058, 0x1059), (0x105E, 0x1060),
     (0x1071, 0x1074), (0x1082, 0x1082), (0x1085, 0x1086), (0x108D, 0x108D), (0x109D, 0x109D),
     (0x10FC, 0x10FC), (0x135D, 0x135F), (0x1712, 0x1714), (0x1732, 0x1733), (0x1752, 0x1753),
     (0x1772, 0x1773), (0x17B4, 0x17B5), (0x17B7, 0x17BD), (0x17C6, 0x17C6), (0x17C9, 0x17D3),
     (0x17D7, 0x17D7), (0x17DD, 0x17DD), (0x180B, 0x180F), (0x1843, 0x1843), (0x1885, 0x1886),
     (0x18A9, 0x18A9), (0x1920, 0x1922), (0x1927, 0x1928), (0x1932, 0x1932), (0x1939, 0x193B),
     (0x1A17, 0x1A18), (0x1A1B, 0x1A1B), (0x1A56, 0x1A56), (0x1A58, 0x1A5E), (0x1A60, 0x1A60),
     (0x1A62, 0x1A62), (0x1A65, 0x1A6C), (0x1A73, 0x1A7C), (0x1A7F, 0x1A7F), (0x1AA7, 0x1AA7),
     (0x1AB0, 0x1ACE), (0x1B00, 0x1B03), (0x1B34, 0x1B34), (0x1B36, 0x1B3A), (0x1B3C, 0x1B3C),
     (0x1B42, 0x1B42), (0x1B6B, 0x1B73), (0x1B80, 0x1B81), (0x1BA2, 0x1BA5), (0x1BA8, 0x1BA9),
     (0x1BAB, 0x1BAD), (0x1BE6, 0x1BE6), (0x1BE8, 0x1BE9), (0x1BED, 0x1BED), (0x1BEF, 0x1BF1),
     (0x1C2C, 0x1C33), (0x1C36, 0x1C37), (0x1C78, 0x1C7D), (0x1CD0, 0x1CD2), (0x1CD4, 0x1CE0),
     (0x1CE2, 0x1CE8), (0x1CED, 0x1CED), (0x1CF4, 0x1CF4), (0x1CF8, 0x1CF9), (0x1D2C, 0x1D6A),
     (0x1D78, 0x1D78), (0x1D9B, 0x1DFF), (0x1FBD, 0x1FBD), (0x1FBF, 0x1FC1), (0x1FCD, 0x1FCF),
     (0x1FDD, 0x1FDF), (0x1FED, 0x1FEF), (0x1FFD, 0x1FFE), (0x200B, 0x200F), (0x2018, 0x2019),
     (0x2024, 0x2024), (0x2027, 0x2027), (0x202A, 0x202E), (0x2060, 0x2064), (0x2066, 0x206F),
     (0x2071, 0x2071), (0x207F, 0x207F), (0x2090, 0x209C), (0x20D0, 0x20F0), (0x2C7C, 0x2C7D),
     (0x2CEF, 0x2CF1), (0x2D6F, 0x2D6F), (0x2D7F, 0x2D7F), (0x2DE0, 0x2DFF), (0x2E2F, 0x2E2F),
     (0x3005, 0x3005), (0x302A, 0x302D), (0x3031, 0x3035), (0x303B, 0x303B), (0x3099, 0x309E),
     (0x30FC, 0x30FE), (0xA015, 0xA015), (0xA4F8, 0xA4FD), (0xA60C, 0xA60C), (0xA66F, 0xA672),
     (0xA674, 0xA67D), (0xA67F, 0xA67F), (0xA69C, 0xA69F), (0xA6F0, 0xA6F1), (0xA700, 0xA721),
     (0xA770, 0xA770), (0xA788, 0xA78A), (0xA7F2, 0xA7F4), (0xA7F8, 0xA7F9), (0xA802, 0xA802),
     (0xA806, 0xA806), (0xA80B, 0xA80B), (0xA825, 0xA826), (0xA82C, 0xA82C), (0xA8C4, 0xA8C5),
     (0xA8E0, 0xA8F1), (0xA8FF, 0xA8FF), (0xA926, 0xA92D), (0xA947, 0xA951), (0xA980, 0xA982),
     (0xA9B3, 0xA9B3), (0xA9B6, 0xA9B9), (0xA9BC, 0xA9BD), (0xA9CF, 0xA9CF), (0xA9E5, 0xA9E6),
     (0xAA29, 0xAA2E), (0xAA31, 0xAA32), (0xAA35, 0xAA36), (0xAA43, 0xAA43), (0xAA4C, 0xAA4C),
     (0xAA70, 0xAA70), (0xAA7C, 0xAA7C), (0xAAB0, 0xAAB0), (0xAAB2, 0xAAB4), (0xAAB7, 0xAAB8),
     (0xAABE, 0xAABF), (0xAAC1, 0xAAC1), (0xAADD, 0xAADD), (0xAAEC, 0xAAED), (0xAAF3, 0xAAF4),
     (0xAAF6, 0xAAF6), (0xAB5B, 0xAB5F), (0xAB69, 0xAB6B), (0xABE5, 0xABE5), (0xABE8, 0xABE8),
     (0xABED, 0xABED), (0xFB1E, 0xFB1E), (0xFBB2, 0xFBC2), (0xFE00, 0xFE0F), (0xFE13, 0xFE13),
     (0xFE20, 0xFE2F), (0xFE52, 0xFE52), (0xFE55, 0xFE55), (0xFEFF, 0xFEFF), (0xFF07, 0xFF07),
     (0xFF0E, 0xFF0E), (0xFF1A, 0xFF1A), (0xFF3E, 0xFF3E), (0xFF40, 0xFF40), (0xFF70, 0xFF70),
     (0xFF9E, 0xFF9F), (0xFFE3, 0xFFE3), (0xFFF9, 0xFFFB), (0x101FD, 0x101FD), (0x102E0, 0x102E0),
     (0x10376, 0x1037A), (0x10780, 0x10785), (0x10787, 0x107B0), (0x107B2, 0x107BA), (0x10A01, 0x10A03),
     (0x10A05, 0x10A06), (0x10A0C, 0x10A0F), (0x10A38, 0x10A3A), (0x10A3F, 0x10A3F), (0x10AE5, 0x10AE6),
     (0x10D24, 0x10D27), (0x10EAB, 0x10EAC), (0x10F46, 0x10F50), (0x10F82, 0x10F85), (0x11001, 0x11001),
     (0x11038, 0x11046), (0x11070, 0x11070), (0x11073, 0x11074), (0x1107F, 0x11081), (0x110B3, 0x110B6),
     (0x110B9, 0x110BA), (0x110BD, 0x110BD), (0x110C2, 0x110C2), (0x110CD, 0x110CD), (0x11100, 0x11102),
     (0x11127, 0x1112B), (0x1112D, 0x11134), (0x11173, 0x11173), (0x11180, 0x11181), (0x111B6, 0x111BE),
     (0x111C9, 0x111CC), (0x111CF, 0x111CF), (0x1122F, 0x11231), (0x11234, 0x11234), (0x11236, 0x11237),
     (0x1123E, 0x1123E), (0x112DF, 0x112DF), (0x112E3, 0x112EA), (0x11300, 0x11301), (0x1133B, 0x1133C),
     (0x11340, 0x11340), (0x11366, 0x1136C), (0x11370, 0x11374), (0x11438, 0x1143F), (0x11442, 0x11444),
     (0x11446, 0x11446), (0x1145E, 0x1145E), (0x114B3, 0x114B8), (0x114BA, 0x114BA), (0x114BF, 0x114C0),
     (0x114C2, 0x114C3), (0x115B2, 0x115B5), (0x115BC, 0x115BD), (0x115BF, 0x115C0), (0x115DC, 0x115DD),
     (0x11633, 0x1163A), (0x1163D, 0x1163D), (0x1163F, 0x11640), (0x116AB, 0x116AB), (0x116AD, 0x116AD),
     (0x116B0, 0x116B5), (0x116B7, 0x116B7), (0x1171D, 0x1171F), (0x11722, 0x11725), (0x11727, 0x1172B),
     (0x1182F, 0x11837), (0x11839, 0x1183A), (0x1193B, 0x1193C), (0x1193E, 0x1193E), (0x11943, 0x11943),
     (0x119D4, 0x119D7), (0x119DA, 0x119DB), (0x119E0, 0x119E0), (0x11A01, 0x11A0A), (0x11A33, 0x11A38),
     (0x11A3B, 0x11A3E), (0x11A47, 0x11A47), (0x11A51, 0x11A56), (0x11A59, 0x11A5B), (0x11A8A, 0x11A96),
     (0x11A98, 0x11A99), (0x11C30, 0x11C36), (0x11C38, 0x11C3D), (0x11C3F, 0x11C3F), (0x11C92, 0x11CA7),
     (0x11CAA, 0x11CB0), (0x11CB2, 0x11CB3), (0x11CB5, 0x11CB6), (0x11D31, 0x11D36), (0x11D3A, 0x11D3A),
     (0x11D3C, 0x11D3D), (0x11D3F, 0x11D45), (0x11D47, 0x11D47), (0x11D90, 0x11D91), (0x11D95, 0x11D95),
     (0x11D97, 0x11D97), (0x11EF3, 0x11EF4), (0x13430, 0x13438), (0x16AF0, 0x16AF4), (0x16B30, 0x16B36),
     (0x16B40, 0x16B43), (0x16F4F, 0x16F4F), (0x16F8F, 0x16F9F), (0x16FE0, 0x16FE1), (0x16FE3, 0x16FE4),
     (0x1AFF0, 0x1AFF3), (0x1AFF5, 0x1AFFB), (0x1AFFD, 0x1AFFE), (0x1BC9D, 0x1BC9E), (0x1BCA0, 0x1BCA3),
     (0x1CF00, 0x1CF2D), (0x1CF30, 0x1CF46), (0x1D167, 0x1D169), (0x1D173, 0x1D182), (0x1D185, 0x1D18B),
     (0x1D1AA, 0x1D1AD), (0x1D242, 0x1D244), (0x1DA00, 0x1DA36), (0x1DA3B, 0x1DA6C), (0x1DA75, 0x1DA75),
     (0x1DA84, 0x1DA84), (0x1DA9B, 0x1DA9F), (0x1DAA1, 0x1DAAF), (0x1E000, 0x1E006), (0x1E008, 0x1E018),
     (0x1E01B, 0x1E021), (0x1E023, 0x1E024), (0x1E026, 0x1E02A), (0x1E130, 0x1E13D), (0x1E2AE, 0x1E2AE),
     (0x1E2EC, 0x1E2EF), (0x1E8D0, 0x1E8D6), (0x1E944, 0x1E94B), (0x1F3FB, 0x1F3FF), (0xE0001, 0xE0001),
     (0xE0020, 0xE007F), (0xE0100, 0xE01EF)]"

text \<open>A code point above 65535 is a pair of surrogates in the string.\<close>

definition is_high_surrogate :: "nat \<Rightarrow> bool" where
  "is_high_surrogate c \<longleftrightarrow> 0xD800 \<le> c \<and> c \<le> 0xDBFF"

definition is_low_surrogate :: "nat \<Rightarrow> bool" where
  "is_low_surrogate c \<longleftrightarrow> 0xDC00 \<le> c \<and> c \<le> 0xDFFF"

fun code_points :: "jstring \<Rightarrow> nat list" where
  "code_points [] = []"
| "code_points [c] = [c]"
| "code_points (c # d # cs) =
     (if is_high_surrogate c \<and> is_low_surrogate d
      then (0x10000 + (c - 0xD800) * 0x400 + (d - 0xDC00)) # code_points cs
      else c # code_points (d # cs))"

definition utf16 :: "nat \<Rightarrow> jstring" where
  "utf16 p =
     (if p < 0x10000 then [p]
      else [0xD800 + (p - 0x10000) div 0x400, 0xDC00 + (p - 0x10000) mod 0x400])"

definition toLowerChar :: "nat \<Rightarrow> nat" where
  "toLowerChar c = (if is_upper c then c + 32 else c)"

definition toUpperChar :: "nat \<Rightarrow> nat" where
  "toUpperChar c = (if is_lower c then c - 32 else c)"

text \<open>The lower case of one code point out of context: one code point, except for U+0130,
  the capital I with a dot, which gives \<open>i\<close> and the combining dot U+0307.\<close>

definition lower_point :: "nat \<Rightarrow> nat list" where
  "lower_point p =
     (if is_ascii p then [toLowerChar p]
      else if p = 0x130 then [0x69, 0x307]
      else [map_ranges LOWER_RANGES p])"

text \<open>
  The capital sigma U+03A3 is the one code point whose lower case depends on the context: the
  final form U+03C2 when it ends a word, U+03C3 otherwise. It ends a word when the nearest
  code point before it that is not case-ignorable is cased, and the nearest one after it that
  is not case-ignorable is missing or not cased. \<open>CASED_RANGES\<close> lists the cased code points
  that are not case-ignorable, the only ones these tests reach.
\<close>

definition final_sigma :: "nat list \<Rightarrow> nat list \<Rightarrow> bool" where
  "final_sigma front back \<longleftrightarrow>
     (case dropWhile (in_ranges CASE_IGNORABLE_RANGES) front of
        [] \<Rightarrow> False | p # _ \<Rightarrow> in_ranges CASED_RANGES p) \<and>
     (case dropWhile (in_ranges CASE_IGNORABLE_RANGES) back of
        [] \<Rightarrow> True | p # _ \<Rightarrow> \<not> in_ranges CASED_RANGES p)"

text \<open>\<open>lower_from front ps\<close>: the lower case of the code points \<open>ps\<close>, where \<open>front\<close> holds the
  code points before them, the nearest first.\<close>

fun lower_from :: "nat list \<Rightarrow> nat list \<Rightarrow> nat list" where
  "lower_from front [] = []"
| "lower_from front (p # ps) =
     (if p = 0x3A3 then [if final_sigma front ps then 0x3C2 else 0x3C3] else lower_point p)
     @ lower_from (p # front) ps"

definition toLowerCase :: "jstring \<Rightarrow> jstring" where
  "toLowerCase s = concat (map utf16 (lower_from [] (code_points s)))"

text \<open>
  \<open>canonicalize\<close> is the comparison key of a code unit under the flag \<^verbatim>\<open>i\<close> (without
  \<^verbatim>\<open>u\<close>): its upper case when that is a single code unit, except that a code unit from 128
  on is never identified with an ASCII one. \<open>UPPER_RANGES\<close> holds the code units from 128 on
  whose upper case is one other code unit.
\<close>

definition canonicalize :: "nat \<Rightarrow> nat" where
  "canonicalize ch =
     (let cu = (if is_ascii ch then toUpperChar ch else map_ranges UPPER_RANGES ch)
      in if ch \<ge> 128 \<and> cu < 128 then ch else cu)"

section \<open>Numbers\<close>

text \<open>
  A JavaScript number is an IEEE 754 double. A finite double is modelled by the rational it
  denotes, and every arithmetic operation gives the exact result rounded by \<open>fl\<close>: to 53
  significant bits, to the nearest, a tie going to the even significand. \<open>binade x\<close> is the
  exponent of \<open>x\<close>, the \<open>e\<close> with \<open>2^e \<le> x < 2^(e+1)\<close>. The exponent is not bounded here; the
  numbers of these scripts (quotients and products of lengths and of a few constants) stay far
  inside the range of a double, where \<open>fl\<close> is its rounding.
\<close>

definition binade :: "rat \<Rightarrow> int" where
  "binade x =
     (let e = bitlen (fst (quotient_of x)) - bitlen (snd (quotient_of x))
      in if 2 powi e \<le> x then e else e - 1)"

definition round_half_even :: "rat \<Rightarrow> int" where
  "round_half_even m =
     (let f = \<lfloor>m\<rfloor>; r = m - of_int f in
      if r < 1 / 2 then f else if r > 1 / 2 then f + 1 else if even f then f else f + 1)"

definition fl :: "rat \<Rightarrow> rat" where
  "fl x =
     (if x = 0 then 0
      else
        let a = \<bar>x\<bar>; q = 2 powi (binade a - 52); m = of_int (round_half_even (a / q)) * q
        in if x < 0 then - m else m)"

text \<open>\<^verbatim>\<open>Math.round\<close> and \<^verbatim>\<open>Math.ceil\<close> of a finite double: the nearest integer, a tie
  going up, and the least integer not below it.\<close>

definition js_round :: "rat \<Rightarrow> int" where
  "js_round x = \<lfloor>x + 1 / 2\<rfloor>"

definition js_ceil :: "rat \<Rightarrow> int" where
  "js_ceil x = \<lceil>x\<rceil>"

section \<open>The escaped word-boundary pattern\<close>

text \<open>
  Every presence check builds \<^verbatim>\<open>new RegExp(`\\b${escapeRegex(kw)}\\b`, 'i')\<close>.
  \<open>escapeRegex\<close> is \<^verbatim>\<open>str.replace(/[.*+?^${}()|[\]\\]/g, '\\$&')\<close>: it puts a
  backslash before each syntax character.
\<close>

definition syntax_chars :: "nat list" where
  "syntax_chars = ascii ''.*+?^${}()|[]'' @ [backslash]"

definition escapeRegex :: "jstring \<Rightarrow> jstring" where
  "escapeRegex s = concat (map (\<lambda>c. if c \<in> set syntax_chars then [backslash, c] else [c]) s)"

text \<open>
  The patterns that arise are sequences of two kinds of atom. \<open>RegExp\<close> reads a pattern
  source of that fragment: \<^verbatim>\<open>\b\<close> is the word-boundary assertion, a backslash before a
  syntax character is that character, any other code unit stands for itself. A source outside
  the fragment (where the constructor could throw or would build another kind of pattern) is
  \<open>None\<close>.
\<close>

datatype atom = WordBoundary | Literal nat

fun RegExp :: "jstring \<Rightarrow> atom list option" where
  "RegExp [] = Some []"
| "RegExp (c # rest) =
     (if c = backslash then
        (case rest of
           [] \<Rightarrow> None
         | d # rest' \<Rightarrow>
             if d = code CHR ''b'' then map_option (Cons WordBoundary) (RegExp rest')
             else if d \<in> set syntax_chars then map_option (Cons (Literal d)) (RegExp rest')
             else None)
      else if c \<in> set syntax_chars then None
      else map_option (Cons (Literal c)) (RegExp rest))"

definition is_word_at :: "nat option \<Rightarrow> bool" where
  "is_word_at p = (case p of None \<Rightarrow> False | Some c \<Rightarrow> is_word c)"

definition next_char :: "jstring \<Rightarrow> nat option" where
  "next_char s = (case s of [] \<Rightarrow> None | c # _ \<Rightarrow> Some c)"

text \<open>
  \<open>match_here r prev s\<close>: the atoms \<open>r\<close> match at the current position, where \<open>prev\<close> is the
  code unit before it (none at the start of the text) and \<open>s\<close> is the text from it on. Under
  the flag \<^verbatim>\<open>i\<close> a literal matches a code unit with the same \<open>canonicalize\<close>.
  \<open>match_from\<close> tries every position from the current one to the end of the text.
\<close>

fun match_here :: "atom list \<Rightarrow> nat option \<Rightarrow> jstring \<Rightarrow> bool" where
  "match_here [] prev s = True"
| "match_here (WordBoundary # r) prev s =
     (is_word_at prev \<noteq> is_word_at (next_char s) \<and> match_here r prev s)"
| "match_here (Literal c # r) prev [] = False"
| "match_here (Literal c # r) prev (x # xs) =
     (canonicalize c = canonicalize x \<and> match_here r (Some x) xs)"

fun match_from :: "atom list \<Rightarrow> nat option \<Rightarrow> jstring \<Rightarrow> bool" where
  "match_from r prev [] = match_here r prev []"
| "match_from r prev (x # xs) = (match_here r prev (x # xs) \<or> match_from r (Some x) xs)"

definition regex_test :: "atom list \<Rightarrow> jstring \<Rightarrow> bool" where
  "regex_test r s = match_from r None s"

definition keywordRegex :: "jstring \<Rightarrow> atom list option" where
  "keywordRegex kw =
     RegExp ([backslash, code CHR ''b''] @ escapeRegex kw @ [backslash, code CHR ''b''])"

text \<open>The test of a keyword's pattern against a text. The pattern source is always inside
  the fragment (lemma \<open>keywordRegex_atoms\<close>), so the \<open>None\<close> branch is never taken.\<close>

definition keyword_test :: "jstring \<Rightarrow> jstring \<Rightarrow> bool" where
  "keyword_test kw cv =
     (case keywordRegex kw of None \<Rightarrow> False | Some r \<Rightarrow> regex_test r cv)"

section \<open>KeywordExtractor.matchKeywords\<close>

record match_result =
  matched :: "jstring list"
  missing :: "jstring list"
  matchScore :: int
  matchCount :: nat
  totalKeywords :: "nat option"

text \<open>One turn of the \<^verbatim>\<open>forEach\<close> loop: the keyword is pushed on one of the two lists.\<close>

definition match_step ::
  "jstring \<Rightarrow> jstring list \<times> jstring list \<Rightarrow> jstring \<Rightarrow> jstring list \<times> jstring list" where
  "match_step cvLower acc keyword =
     (let keywordLower = toLowerCase keyword in
      if keyword_test keywordLower cvLower then (fst acc @ [keyword], snd acc)
      else (fst acc, snd acc @ [keyword]))"

text \<open>\<^verbatim>\<open>Math.round((matched.length / keywords.length) * 100)\<close>: the quotient is rounded to a
  double, and so is its product with 100, before \<^verbatim>\<open>Math.round\<close>. For 23 of 40 the
  product is a little below 57.5 and the score is 57.\<close>

definition percent :: "nat \<Rightarrow> nat \<Rightarrow> int" where
  "percent m n = (if n > 0 then js_round (fl (fl (of_nat m / of_nat n) * 100)) else 0)"

definition matchKeywords :: "jstring \<Rightarrow> jstring list \<Rightarrow> match_result" where
  "matchKeywords cvText keywords =
     (if cvText = [] \<or> keywords = [] then
        \<lparr>matched = [], missing = [], matchScore = 0, matchCount = 0, totalKeywords = None\<rparr>
      else
        let cvLower = toLowerCase cvText;
            lists = foldl (match_step cvLower) ([], []) keywords
        in \<lparr>matched = fst lists, missing = snd lists,
            matchScore = percent (length (fst lists)) (length keywords),
            matchCount = length (fst lists),
            totalKeywords = Some (length keywords)\<rparr>)"

section \<open>CVTailor.hasKeyword and KeywordChips.checkKeywordMatch\<close>

definition hasKeyword :: "jstring \<Rightarrow> jstring \<Rightarrow> bool" where
  "hasKeyword cv keyword =
     (if cv = [] \<or> keyword = [] then False else keyword_test keyword cv)"

text \<open>\<open>checkKeywordMatch\<close> tries the pattern inside \<^verbatim>\<open>try\<close>; a constructor that threw
  would fall through to the substring test, as a pattern that does not match does.\<close>

definition checkKeywordMatch :: "jstring \<Rightarrow> jstring \<Rightarrow> bool" where
  "checkKeywordMatch cvLower keyword =
     (let keywordLower = toLowerCase keyword in
      if (case keywordRegex keywordLower of None \<Rightarrow> False | Some r \<Rightarrow> regex_test r cvLower)
      then True
      else includes_str cvLower keywordLower)"

text \<open>The pattern of a keyword lower-cased unit by unit, atom by atom (used to compare the
  checks on ASCII text).\<close>

primrec lower_atom :: "atom \<Rightarrow> atom" where
  "lower_atom WordBoundary = WordBoundary"
| "lower_atom (Literal c) = Literal (toLowerChar c)"

text \<open>The code unit before a position that lies \<open>m\<close> after one whose predecessor is \<open>prev\<close>.\<close>

definition last_char :: "nat option \<Rightarrow> jstring \<Rightarrow> nat option" where
  "last_char prev m = (if m = [] then prev else Some (last m))"

text \<open>\<open>followed_at kw s\<close>: the keyword, ignoring case, stands at the start of \<open>s\<close> and a word
  character follows it. \<open>followed_occurrence\<close>: it does so somewhere in the text.\<close>

definition followed_at :: "jstring \<Rightarrow> jstring \<Rightarrow> bool" where
  "followed_at kw s \<longleftrightarrow>
     length kw < length s \<and> map canonicalize (take (length kw) s) = map canonicalize kw \<and>
     is_word (s ! length kw)"

fun followed_occurrence :: "jstring \<Rightarrow> jstring \<Rightarrow> bool" where
  "followed_occurrence kw [] = False"
| "followed_occurrence kw (x # xs) = (followed_at kw (x # xs) \<or> followed_occurrence kw xs)"

section \<open>Rounding to a double\<close>

lemma powi_of_nat: "0 \<le> e \<Longrightarrow> (2::rat) powi e = 2 ^ nat e"
  by (simp add: power_int_def)

lemma bitlen_rat_bounds:
  assumes "0 < p"
  shows "(2::rat) powi (bitlen p - 1) \<le> of_int p" "of_int p < (2::rat) powi (bitlen p)"
proof -
  from assms have b: "1 \<le> bitlen p"
    using bitlen_eq_zero_iff [of p] bitlen_nonneg [of p] by linarith
  from bitlen_bounds [OF assms] have lo: "2 ^ nat (bitlen p - 1) \<le> p" and hi: "p < 2 ^ nat (bitlen p)"
    by simp_all
  have "(2::rat) powi (bitlen p - 1) = of_int (2 ^ nat (bitlen p - 1))"
    using b by (simp add: powi_of_nat)
  also have "\<dots> \<le> of_int p" using lo by (simp only: of_int_le_iff)
  finally show "(2::rat) powi (bitlen p - 1) \<le> of_int p" .
  have "(of_int p :: rat) < of_int (2 ^ nat (bitlen p))" using hi by (simp only: of_int_less_iff)
  also have "\<dots> = (2::rat) powi (bitlen p)"
    using b by (simp add: powi_of_nat)
  finally show "of_int p < (2::rat) powi (bitlen p)" .
qed

lemma two_powi_pos [simp]: "0 < (2::rat) powi e"
  by (simp add: zero_less_power_int)

lemma two_powi_mono: "a \<le> b \<Longrightarrow> (2::rat) powi a \<le> 2 powi b"
  by (rule power_int_increasing) simp_all

lemma two_powi_strict_mono: "a < b \<Longrightarrow> (2::rat) powi a < 2 powi b"
  by (rule power_int_strict_increasing) simp_all

lemma two_powi_Suc: "(2::rat) powi (e + 1) = 2 * 2 powi e"
  by (simp add: power_int_add)

lemma binade_bounds:
  assumes "0 < x"
  shows "2 powi (binade x) \<le> x" "x < 2 powi (binade x + 1)"
proof -
  obtain p q where pq: "quotient_of x = (p, q)" by (cases "quotient_of x")
  then have x: "x = of_int p / of_int q" and q: "0 < q"
    using quotient_of_div quotient_of_denom_pos by blast+
  with assms have p: "0 < p"
    by (simp add: zero_less_divide_iff)
  define e where "e = bitlen p - bitlen q"
  note P = bitlen_rat_bounds [OF p] and Q = bitlen_rat_bounds [OF q]
  have qpos: "(0::rat) < of_int q" using q by simp
  have "x < 2 powi (bitlen p) / 2 powi (bitlen q - 1)"
    unfolding x using P(2) Q(1) qpos
    by (intro frac_less) (simp_all add: p less_imp_le)
  also have "\<dots> = 2 powi (e + 1)"
    unfolding e_def by (simp add: power_int_diff [symmetric] algebra_simps)
  finally have up: "x < 2 powi (e + 1)" .
  have "2 powi (e - 1) = (2::rat) powi (bitlen p - 1) / 2 powi (bitlen q)"
    unfolding e_def by (simp add: power_int_diff [symmetric] algebra_simps)
  also have "\<dots> \<le> x"
    unfolding x using P(1) Q(2) qpos
    by (intro frac_le) (use p in \<open>simp_all add: less_imp_le\<close>)
  finally have lo: "2 powi (e - 1) \<le> x" .
  have b: "binade x = (if 2 powi e \<le> x then e else e - 1)"
    by (simp add: binade_def pq e_def Let_def)
  show "2 powi (binade x) \<le> x"
    using lo by (simp add: b)
  show "x < 2 powi (binade x + 1)"
    using up by (auto simp: b not_le)
qed

lemma binade_unique:
  assumes "2 powi e \<le> x" "x < 2 powi (e + 1)"
  shows "binade x = e"
proof -
  have pos: "0 < x" using assms(1) two_powi_pos [of e] by linarith
  note B = binade_bounds [OF pos]
  have "\<not> binade x < e"
  proof
    assume "binade x < e"
    then have "binade x + 1 \<le> e" by simp
    then have "(2::rat) powi (binade x + 1) \<le> 2 powi e" by (rule two_powi_mono)
    with B(2) assms(1) show False by linarith
  qed
  moreover have "\<not> e < binade x"
  proof
    assume "e < binade x"
    then have "e + 1 \<le> binade x" by simp
    then have "(2::rat) powi (e + 1) \<le> 2 powi binade x" by (rule two_powi_mono)
    with B(1) assms(2) show False by linarith
  qed
  ultimately show ?thesis by linarith
qed

lemma binade_mono:
  assumes "0 < x" "x \<le> y"
  shows "binade x \<le> binade y"
proof (rule ccontr)
  assume "\<not> binade x \<le> binade y"
  then have "binade y + 1 \<le> binade x" by simp
  then have "(2::rat) powi (binade y + 1) \<le> 2 powi binade x" by (rule two_powi_mono)
  moreover have "0 < y" using assms by linarith
  ultimately show False
    using binade_bounds(1) [OF assms(1)] binade_bounds(2) [OF \<open>0 < y\<close>] assms(2) by linarith
qed

lemma round_half_even_bounds: "\<lfloor>m\<rfloor> \<le> round_half_even m" "round_half_even m \<le> \<lfloor>m\<rfloor> + 1"
  by (simp_all add: round_half_even_def Let_def)

lemma round_half_even_of_int [simp]: "round_half_even (of_int k) = k"
  by (simp add: round_half_even_def Let_def)

lemma round_half_even_le_int:
  assumes "m \<le> of_int k"
  shows "round_half_even m \<le> k"
proof (cases "m = of_int k")
  case True
  then show ?thesis by simp
next
  case False
  with assms have "m < of_int k" by simp
  then have "\<lfloor>m\<rfloor> < k" by (simp add: floor_less_iff)
  with round_half_even_bounds(2) [of m] show ?thesis by linarith
qed

lemma round_half_even_ge_int:
  assumes "of_int k \<le> m"
  shows "k \<le> round_half_even m"
proof -
  from assms have "k \<le> \<lfloor>m\<rfloor>" by (simp add: le_floor_iff)
  with round_half_even_bounds(1) [of m] show ?thesis by linarith
qed

lemma round_half_even_mono:
  assumes "m \<le> n"
  shows "round_half_even m \<le> round_half_even n"
proof (cases "\<lfloor>m\<rfloor> = \<lfloor>n\<rfloor>")
  case False
  with assms have "\<lfloor>m\<rfloor> < \<lfloor>n\<rfloor>" using floor_mono [OF assms] by linarith
  with round_half_even_bounds(2) [of m] round_half_even_bounds(1) [of n] show ?thesis by linarith
next
  case True
  with assms show ?thesis
    by (auto simp: round_half_even_def Let_def)
qed


lemma fl_pos_eq:
  "0 < x \<Longrightarrow> fl x = of_int (round_half_even (x / 2 powi (binade x - 52))) * 2 powi (binade x - 52)"
  by (simp add: fl_def Let_def)

lemma fl_bounds:
  assumes "0 < x"
  shows "2 powi (binade x) \<le> fl x" "fl x \<le> 2 powi (binade x + 1)"
proof -
  define q :: rat where "q = 2 powi (binade x - 52)"
  have q: "0 < q" by (simp add: q_def)
  note B = binade_bounds [OF assms]
  have lo: "2 powi (binade x) = of_int (2 ^ 52) * q"
    by (simp add: q_def power_int_diff)
  have hi: "2 powi (binade x + 1) = of_int (2 ^ 53) * q"
    by (simp add: q_def power_int_diff two_powi_Suc)
  have "of_int (2 ^ 52) \<le> x / q"
    using B(1) q unfolding lo by (simp add: pos_le_divide_eq)
  then have "2 ^ 52 \<le> round_half_even (x / q)"
    by (rule round_half_even_ge_int)
  then have "(of_int (2 ^ 52) :: rat) \<le> of_int (round_half_even (x / q))"
    by (simp only: of_int_le_iff)
  then have "of_int (2 ^ 52) * q \<le> of_int (round_half_even (x / q)) * q"
    using q by (simp only: mult_le_cancel_right_pos)
  then show "2 powi (binade x) \<le> fl x"
    unfolding lo fl_pos_eq [OF assms] q_def .
  have "x / q \<le> of_int (2 ^ 53)"
    using B(2) q unfolding hi by (simp add: pos_divide_le_eq less_imp_le)
  then have "round_half_even (x / q) \<le> 2 ^ 53"
    by (rule round_half_even_le_int)
  then have "(of_int (round_half_even (x / q)) :: rat) \<le> of_int (2 ^ 53)"
    by (simp only: of_int_le_iff)
  then have "of_int (round_half_even (x / q)) * q \<le> of_int (2 ^ 53) * q"
    using q by (simp only: mult_le_cancel_right_pos)
  then show "fl x \<le> 2 powi (binade x + 1)"
    unfolding hi fl_pos_eq [OF assms] q_def .
qed

lemma fl_pos: "0 < x \<Longrightarrow> 0 < fl x"
  using fl_bounds(1) [of x] two_powi_pos [of "binade x"] by linarith

lemma fl_nonneg: "0 \<le> x \<Longrightarrow> 0 \<le> fl x"
  using fl_pos [of x] by (cases "x = 0") (simp_all add: fl_def)

lemma fl_mono_pos:
  assumes "0 < x" "x \<le> y"
  shows "fl x \<le> fl y"
proof -
  have y: "0 < y" using assms by linarith
  have le: "binade x \<le> binade y" using assms by (rule binade_mono)
  show ?thesis
  proof (cases "binade x = binade y")
    case True
    define q :: rat where "q = 2 powi (binade x - 52)"
    have q: "0 < q" by (simp add: q_def)
    have "x / q \<le> y / q" using assms(2) q by (simp add: divide_le_cancel)
    then have "round_half_even (x / q) \<le> round_half_even (y / q)"
      by (rule round_half_even_mono)
    then have "(of_int (round_half_even (x / q)) :: rat) \<le> of_int (round_half_even (y / q))"
      by (simp only: of_int_le_iff)
    then have "of_int (round_half_even (x / q)) * q \<le> of_int (round_half_even (y / q)) * q"
      using q by (simp only: mult_le_cancel_right_pos)
    then show ?thesis
      unfolding fl_pos_eq [OF assms(1)] fl_pos_eq [OF y] True [symmetric] q_def .
  next
    case False
    with le have "binade x + 1 \<le> binade y" by simp
    then have "(2::rat) powi (binade x + 1) \<le> 2 powi binade y" by (rule two_powi_mono)
    with fl_bounds(2) [OF assms(1)] fl_bounds(1) [OF y] show ?thesis by linarith
  qed
qed

lemma fl_mono:
  assumes "0 \<le> x" "x \<le> y"
  shows "fl x \<le> fl y"
proof (cases "x = 0")
  case True
  with assms fl_nonneg [of y] show ?thesis by (simp add: fl_def)
next
  case False
  with assms show ?thesis by (intro fl_mono_pos) simp_all
qed

lemma fl_facts: "fl 1 = 1" "fl 100 = 100"
  by code_simp+

lemma percent_bounds:
  assumes "m \<le> n"
  shows "0 \<le> percent m n" "percent m n \<le> 100"
proof -
  have nn: "0 \<le> fl (fl (of_nat m / of_nat n) * 100)"
    by (intro fl_nonneg mult_nonneg_nonneg) simp_all
  then show "0 \<le> percent m n"
    by (simp add: percent_def js_round_def)
  show "percent m n \<le> 100"
  proof (cases "n > 0")
    case True
    have "(of_nat m :: rat) / of_nat n \<le> 1"
      using assms True by (simp add: divide_le_eq)
    then have "fl (of_nat m / of_nat n) \<le> fl 1"
      by (intro fl_mono) simp_all
    then have "fl (of_nat m / of_nat n) * 100 \<le> 100"
      by (simp add: fl_facts)
    then have "fl (fl (of_nat m / of_nat n) * 100) \<le> fl 100"
      by (intro fl_mono mult_nonneg_nonneg fl_nonneg) simp_all
    then have "fl (fl (of_nat m / of_nat n) * 100) + 1 / 2 < 101"
      by (simp add: fl_facts)
    then show ?thesis using True by (simp add: percent_def js_round_def)
  next
    case False
    then show ?thesis by (simp add: percent_def)
  qed
qed

section \<open>Facts about code units\<close>

lemma canonicalize_ascii: "is_ascii c \<Longrightarrow> canonicalize c = toUpperChar c"
  by (simp add: canonicalize_def is_ascii_def Let_def)

lemma canonicalize_is_ascii [simp]: "is_ascii (canonicalize c) = is_ascii c"
  by (auto simp: canonicalize_def is_ascii_def Let_def toUpperChar_def)

lemma is_ascii_toLowerChar [simp]: "is_ascii (toLowerChar c) = is_ascii c"
  by (auto simp: is_ascii_def toLowerChar_def is_upper_def)

lemma is_word_ascii: "is_word c \<Longrightarrow> is_ascii c"
  by (auto simp: is_word_def is_ascii_def is_digit_def is_upper_def is_lower_def)

lemma canonicalize_toLowerChar: "canonicalize (toLowerChar c) = canonicalize c"
proof (cases "is_upper c")
  case True
  then have "is_ascii c" "is_ascii (c + 32)" "is_lower (c + 32)" "\<not> is_lower c"
    by (auto simp: is_upper_def is_ascii_def is_lower_def)
  with True show ?thesis
    by (simp add: canonicalize_ascii toLowerChar_def toUpperChar_def)
next
  case False
  then show ?thesis by (simp add: toLowerChar_def)
qed

lemma is_word_toLowerChar: "is_word (toLowerChar c) = is_word c"
  unfolding is_word_def toLowerChar_def is_upper_def is_lower_def is_digit_def
  by auto

lemma is_word_toUpperChar: "is_word (toUpperChar c) = is_word c"
  unfolding is_word_def toUpperChar_def is_upper_def is_lower_def is_digit_def
  by auto

lemma is_word_canonicalize: "is_word (canonicalize c) = is_word c"
proof (cases "is_ascii c")
  case True
  then show ?thesis by (simp add: canonicalize_ascii is_word_toUpperChar)
next
  case False
  then have "\<not> is_ascii (canonicalize c)" by simp
  with False show ?thesis using is_word_ascii by blast
qed

lemma canonicalize_eq_is_word:
  "canonicalize c = canonicalize d \<Longrightarrow> is_word c = is_word d"
  by (metis is_word_canonicalize)

lemma toLowerChar_not_upper: "\<not> is_upper (toLowerChar c)"
  unfolding toLowerChar_def is_upper_def by auto

lemma toUpperChar_inj_not_upper:
  assumes "\<not> is_upper c" "\<not> is_upper d" "toUpperChar c = toUpperChar d"
  shows "c = d"
  using assms unfolding toUpperChar_def is_upper_def is_lower_def
  by (auto split: if_splits)

lemma canonicalize_lower_inj:
  assumes "is_ascii c" "is_ascii d" "canonicalize (toLowerChar c) = canonicalize (toLowerChar d)"
  shows "toLowerChar c = toLowerChar d"
proof -
  from assms have "toUpperChar (toLowerChar c) = toUpperChar (toLowerChar d)"
    by (simp add: canonicalize_ascii)
  then show ?thesis
    by (rule toUpperChar_inj_not_upper [OF toLowerChar_not_upper toLowerChar_not_upper])
qed

text \<open>On ASCII text the lower case is taken character by character.\<close>

lemma code_points_ascii: "ascii_only s \<Longrightarrow> code_points s = s"
proof (induction s rule: code_points.induct)
  case (3 c d cs)
  then have "\<not> is_high_surrogate c"
    by (simp add: ascii_only_def is_ascii_def is_high_surrogate_def)
  with 3 show ?case by (simp add: ascii_only_def)
qed simp_all

lemma lower_from_ascii: "ascii_only s \<Longrightarrow> lower_from front s = map toLowerChar s"
proof (induction s arbitrary: front)
  case Nil
  show ?case by simp
next
  case (Cons c s)
  then have c: "is_ascii c" and s: "ascii_only s" by (simp_all add: ascii_only_def)
  from c have "c \<noteq> 0x3A3" by (auto simp: is_ascii_def)
  with c Cons.IH [OF s] show ?case by (simp add: lower_point_def)
qed

lemma utf16_small: "list_all (\<lambda>p. p < 0x10000) ps \<Longrightarrow> concat (map utf16 ps) = ps"
  by (induction ps) (simp_all add: utf16_def)

lemma ascii_only_map_lower: "ascii_only s \<Longrightarrow> ascii_only (map toLowerChar s)"
  by (simp add: ascii_only_def list_all_iff)

lemma toLowerCase_ascii: "ascii_only s \<Longrightarrow> toLowerCase s = map toLowerChar s"
proof -
  assume a: "ascii_only s"
  then have "list_all (\<lambda>p. p < 0x10000) (map toLowerChar s)"
    using ascii_only_map_lower [OF a] by (auto simp: ascii_only_def list_all_iff is_ascii_def)
  then have "concat (map utf16 (map toLowerChar s)) = map toLowerChar s"
    by (rule utf16_small)
  with a show ?thesis
    by (simp only: toLowerCase_def code_points_ascii lower_from_ascii)
qed

section \<open>The keyword pattern\<close>

lemma backslash_syntax: "backslash \<in> set syntax_chars"
  by (simp add: syntax_chars_def)

lemma b_not_syntax: "code CHR ''b'' \<notin> set syntax_chars"
  by (simp add: syntax_chars_def backslash_def ascii_def code_def)

lemma RegExp_escapeRegex:
  "RegExp (escapeRegex kw @ rest) = map_option ((@) (map Literal kw)) (RegExp rest)"
proof (induction kw)
  case Nil
  show ?case by (simp add: escapeRegex_def option.map_ident)
next
  case (Cons c kw)
  have step: "escapeRegex (c # kw) = (if c \<in> set syntax_chars then [backslash, c] else [c]) @ escapeRegex kw"
    by (simp add: escapeRegex_def)
  show ?case
  proof (cases "c \<in> set syntax_chars")
    case True
    then have "c \<noteq> code CHR ''b''" using b_not_syntax by auto
    with True Cons show ?thesis
      by (simp add: step option.map_comp comp_def)
  next
    case False
    then have "c \<noteq> backslash" using backslash_syntax by auto
    with False Cons show ?thesis
      by (simp add: step option.map_comp comp_def)
  qed
qed

lemma keywordRegex_atoms:
  "keywordRegex kw = Some (WordBoundary # map Literal kw @ [WordBoundary])"
proof -
  have "RegExp [backslash, code CHR ''b''] = Some [WordBoundary]"
    by simp
  then have "RegExp (escapeRegex kw @ [backslash, code CHR ''b'']) = Some (map Literal kw @ [WordBoundary])"
    by (simp only: RegExp_escapeRegex option.map)
  then show ?thesis
    unfolding keywordRegex_def by simp
qed

lemma keyword_test_atoms:
  "keyword_test kw cv = regex_test (WordBoundary # map Literal kw @ [WordBoundary]) cv"
  by (simp add: keyword_test_def keywordRegex_atoms)

text \<open>Lower-casing keyword and text unit by unit, as \<open>toLowerCase\<close> does on ASCII text, changes no
  decision.\<close>

lemma is_word_at_lower: "is_word_at (map_option toLowerChar p) = is_word_at p"
  by (cases p) (simp_all add: is_word_at_def is_word_toLowerChar)

lemma next_char_lower: "next_char (map toLowerChar s) = map_option toLowerChar (next_char s)"
  by (cases s) (simp_all add: next_char_def)

lemma match_here_lower:
  "match_here (map lower_atom r) (map_option toLowerChar prev) (map toLowerChar s) = match_here r prev s"
proof (induction r prev s rule: match_here.induct)
  case (2 r prev s)
  then show ?case
    by (simp add: is_word_at_lower next_char_lower)
next
  case (4 c r prev x xs)
  then show ?case
    by (simp add: canonicalize_toLowerChar)
qed simp_all

lemma match_from_lower:
  "match_from (map lower_atom r) (map_option toLowerChar prev) (map toLowerChar s) = match_from r prev s"
proof (induction s arbitrary: prev)
  case Nil
  show ?case using match_here_lower [of r prev "[]"] by simp
next
  case (Cons x xs)
  have "match_here (map lower_atom r) (map_option toLowerChar prev) (toLowerChar x # map toLowerChar xs)
        = match_here r prev (x # xs)"
    using match_here_lower [of r prev "x # xs"] by simp
  moreover have "match_from (map lower_atom r) (Some (toLowerChar x)) (map toLowerChar xs)
        = match_from r (Some x) xs"
    using Cons [of "Some x"] by simp
  ultimately show ?case by simp
qed

lemma keyword_test_lower_units:
  "keyword_test (map toLowerChar kw) (map toLowerChar cv) = keyword_test kw cv"
proof -
  have "map lower_atom (WordBoundary # map Literal kw @ [WordBoundary])
        = WordBoundary # map Literal (map toLowerChar kw) @ [WordBoundary]"
    by (simp add: comp_def)
  with match_from_lower [of "WordBoundary # map Literal kw @ [WordBoundary]" None cv]
  have "match_from (WordBoundary # map Literal (map toLowerChar kw) @ [WordBoundary]) None
          (map toLowerChar cv)
        = match_from (WordBoundary # map Literal kw @ [WordBoundary]) None cv"
    by (simp only: option.map)
  then show ?thesis
    by (simp only: keyword_test_atoms regex_test_def)
qed

lemma keyword_test_lower:
  "ascii_only kw \<Longrightarrow> ascii_only cv \<Longrightarrow>
     keyword_test (toLowerCase kw) (toLowerCase cv) = keyword_test kw cv"
  by (simp add: toLowerCase_ascii keyword_test_lower_units)

text \<open>The loop of matchKeywords is a pair of filters.\<close>

lemma foldl_match_step:
  "foldl (match_step cv) (ms, ns) ks =
     (ms @ filter (\<lambda>k. keyword_test (toLowerCase k) cv) ks,
      ns @ filter (\<lambda>k. \<not> keyword_test (toLowerCase k) cv) ks)"
  by (induction ks arbitrary: ms ns) (simp_all add: match_step_def)

lemma matchKeywords_lists:
  assumes "cvText \<noteq> []" "keywords \<noteq> []"
  shows "matched (matchKeywords cvText keywords)
           = filter (\<lambda>k. keyword_test (toLowerCase k) (toLowerCase cvText)) keywords"
    and "missing (matchKeywords cvText keywords)
           = filter (\<lambda>k. \<not> keyword_test (toLowerCase k) (toLowerCase cvText)) keywords"
  using assms by (simp_all add: matchKeywords_def Let_def foldl_match_step)

text \<open>A match of a run of literals is an occurrence of the keyword, ignoring case.\<close>

lemma match_here_literals:
  "match_here (map Literal kw @ r) prev s \<longleftrightarrow>
     (\<exists>m rest. s = m @ rest \<and> map canonicalize m = map canonicalize kw \<and>
        match_here r (last_char prev m) rest)"
proof (induction kw arbitrary: prev s)
  case Nil
  show ?case by (simp add: last_char_def)
next
  case (Cons c kw)
  show ?case
  proof (cases s)
    case Nil
    then show ?thesis by simp
  next
    case (Cons x xs)
    have "match_here (map Literal (c # kw) @ r) prev (x # xs) \<longleftrightarrow>
          canonicalize c = canonicalize x \<and>
          (\<exists>m rest. xs = m @ rest \<and> map canonicalize m = map canonicalize kw \<and>
             match_here r (last_char (Some x) m) rest)"
      using Cons.IH [of "Some x" xs] by simp
    also have "\<dots> \<longleftrightarrow> (\<exists>m rest. x # xs = m @ rest \<and>
          map canonicalize m = map canonicalize (c # kw) \<and> match_here r (last_char prev m) rest)"
      (is "?L \<longleftrightarrow> ?R")
    proof
      assume ?L
      then obtain m rest where m: "canonicalize c = canonicalize x" "xs = m @ rest"
        "map canonicalize m = map canonicalize kw" "match_here r (last_char (Some x) m) rest"
        by blast
      have "last_char prev (x # m) = last_char (Some x) m"
        by (simp add: last_char_def)
      with m show ?R
        by (intro exI [of _ "x # m"] exI [of _ rest]) simp
    next
      assume ?R
      then obtain m rest where m: "x # xs = m @ rest"
        "map canonicalize m = map canonicalize (c # kw)" "match_here r (last_char prev m) rest"
        by blast
      from m(2) obtain y m' where m': "m = y # m'"
        by (cases m) auto
      have "last_char prev (y # m') = last_char (Some y) m'"
        by (simp add: last_char_def)
      with m m' show ?L
        by auto
    qed
    finally show ?thesis using Cons by simp
  qed
qed

lemma match_from_position:
  "match_from r prev s \<Longrightarrow> \<exists>pre rest. s = pre @ rest \<and> match_here r (last_char prev pre) rest"
proof (induction s arbitrary: prev)
  case Nil
  then show ?case by (simp add: last_char_def)
next
  case (Cons x xs)
  from Cons.prems have "match_here r prev (x # xs) \<or> match_from r (Some x) xs"
    by simp
  then show ?case
  proof
    assume "match_here r prev (x # xs)"
    then show ?thesis
      by (intro exI [of _ "[]"] exI [of _ "x # xs"]) (simp add: last_char_def)
  next
    assume "match_from r (Some x) xs"
    from Cons.IH [OF this] obtain pre rest where
      p: "xs = pre @ rest" "match_here r (last_char (Some x) pre) rest"
      by blast
    have "last_char prev (x # pre) = last_char (Some x) pre"
      by (simp add: last_char_def)
    with p show ?thesis
      by (intro exI [of _ "x # pre"] exI [of _ rest]) simp
  qed
qed

lemma keyword_test_occurrence:
  assumes "keyword_test kw cv"
  shows "\<exists>pre m post. cv = pre @ m @ post \<and> map canonicalize m = map canonicalize kw \<and>
           is_word_at (last_char None pre) \<noteq> is_word_at (next_char (m @ post)) \<and>
           is_word_at (last_char (last_char None pre) m) \<noteq> is_word_at (next_char post)"
proof -
  from assms have "match_from (WordBoundary # map Literal kw @ [WordBoundary]) None cv"
    by (simp add: keyword_test_atoms regex_test_def)
  from match_from_position [OF this] obtain pre rest where
    p: "cv = pre @ rest"
      "match_here (WordBoundary # map Literal kw @ [WordBoundary]) (last_char None pre) rest"
    by blast
  from p(2) have b1: "is_word_at (last_char None pre) \<noteq> is_word_at (next_char rest)"
    and lits: "match_here (map Literal kw @ [WordBoundary]) (last_char None pre) rest"
    by simp_all
  from lits obtain m post where
    m: "rest = m @ post" "map canonicalize m = map canonicalize kw"
      "match_here [WordBoundary] (last_char (last_char None pre) m) post"
    unfolding match_here_literals by blast
  from m(3) have "is_word_at (last_char (last_char None pre) m) \<noteq> is_word_at (next_char post)"
    by simp
  with p(1) m(1,2) b1 show ?thesis
    by blast
qed

lemma includes_str_iff: "includes_str s p \<longleftrightarrow> (\<exists>pre post. s = pre @ p @ post)"
proof (induction s)
  case Nil
  show ?case by auto
next
  case (Cons x xs)
  show ?case
  proof
    assume "includes_str (x # xs) p"
    then have "prefix p (x # xs) \<or> includes_str xs p" by simp
    then show "\<exists>pre post. x # xs = pre @ p @ post"
    proof
      assume "prefix p (x # xs)"
      then obtain post where "x # xs = p @ post" by (auto simp: prefix_def)
      then show ?thesis by (intro exI [of _ "[]"] exI [of _ post]) simp
    next
      assume "includes_str xs p"
      then obtain pre post where "xs = pre @ p @ post" using Cons by blast
      then show ?thesis by (intro exI [of _ "x # pre"] exI [of _ post]) simp
    qed
  next
    assume "\<exists>pre post. x # xs = pre @ p @ post"
    then obtain pre post where e: "x # xs = pre @ p @ post" by blast
    show "includes_str (x # xs) p"
    proof (cases pre)
      case Nil
      with e have "prefix p (x # xs)" by (simp add: prefix_def)
      then show ?thesis by simp
    next
      case (Cons y ys)
      with e have "xs = ys @ p @ post" by simp
      then have "includes_str xs p" using Cons.IH by blast
      then show ?thesis by simp
    qed
  qed
qed

lemma canonicalize_lower_map:
  "ascii_only m \<Longrightarrow> ascii_only k \<Longrightarrow>
   map canonicalize (map toLowerChar m) = map canonicalize (map toLowerChar k) \<Longrightarrow>
   map toLowerChar m = map toLowerChar k"
proof (induction m arbitrary: k)
  case Nil
  then show ?case by simp
next
  case (Cons x xs)
  from Cons.prems obtain y ys where k: "k = y # ys"
    by (cases k) simp_all
  with Cons.prems have hd_eq: "canonicalize (toLowerChar x) = canonicalize (toLowerChar y)"
    and tl_eq: "map canonicalize (map toLowerChar xs) = map canonicalize (map toLowerChar ys)"
    and asc: "is_ascii x" "is_ascii y" "ascii_only xs" "ascii_only ys"
    by (simp_all add: ascii_only_def)
  have "toLowerChar x = toLowerChar y"
    using asc(1,2) hd_eq by (rule canonicalize_lower_inj)
  moreover have "map toLowerChar xs = map toLowerChar ys"
    using asc(3,4) tl_eq by (rule Cons.IH)
  ultimately show ?case
    using k by simp
qed

lemma ascii_only_append [simp]: "ascii_only (a @ b) \<longleftrightarrow> ascii_only a \<and> ascii_only b"
  by (simp add: ascii_only_def)

lemma keyword_test_includes:
  assumes "ascii_only kw" "ascii_only cv"
    and "keyword_test (map toLowerChar kw) (map toLowerChar cv)"
  shows "includes_str (map toLowerChar cv) (map toLowerChar kw)"
proof -
  from keyword_test_occurrence [OF assms(3)] obtain pre m post where
    o: "map toLowerChar cv = pre @ m @ post"
       "map canonicalize m = map canonicalize (map toLowerChar kw)"
    by blast
  from o(1) obtain us vs where uv: "cv = us @ vs" "pre = map toLowerChar us" "m @ post = map toLowerChar vs"
    unfolding map_eq_append_conv by blast
  from uv(3) obtain m' ws where mw: "vs = m' @ ws" "m = map toLowerChar m'"
    unfolding append_eq_map_conv by blast
  from assms(2) uv(1) mw(1) have "ascii_only m'" by simp
  with o(2) mw(2) assms(1) canonicalize_lower_map [of m' kw] have "m = map toLowerChar kw"
    by simp
  with o(1) have "map toLowerChar cv = pre @ map toLowerChar kw @ post"
    by simp
  then show ?thesis
    unfolding includes_str_iff by (intro exI)
qed

lemma mset_filter_partition:
  "mset (filter P ks) + mset (filter (\<lambda>k. \<not> P k) ks) = mset ks"
  by (induction ks) simp_all

lemma matchKeywords_score_bounds:
  "0 \<le> matchScore (matchKeywords cvText keywords) \<and> matchScore (matchKeywords cvText keywords) \<le> 100"
proof (cases "cvText = [] \<or> keywords = []")
  case True
  then show ?thesis by (auto simp: matchKeywords_def)
next
  case False
  then have ne: "cvText \<noteq> []" "keywords \<noteq> []" by simp_all
  have "length (matched (matchKeywords cvText keywords)) \<le> length keywords"
    by (simp add: matchKeywords_lists(1) [OF ne])
  moreover have "matchScore (matchKeywords cvText keywords)
      = percent (length (matched (matchKeywords cvText keywords))) (length keywords)"
    using ne by (simp add: matchKeywords_def Let_def)
  ultimately show ?thesis
    using percent_bounds by simp
qed

lemma matched_iff_lowered:
  assumes "cv \<noteq> []" "keyword \<in> set kws"
  shows "keyword \<in> set (matched (matchKeywords cv kws))
           \<longleftrightarrow> keyword_test (toLowerCase keyword) (toLowerCase cv)"
    and "keyword \<in> set (missing (matchKeywords cv kws))
           \<longleftrightarrow> \<not> keyword_test (toLowerCase keyword) (toLowerCase cv)"
proof -
  from assms(2) have ne: "kws \<noteq> []" by auto
  show "keyword \<in> set (matched (matchKeywords cv kws))
           \<longleftrightarrow> keyword_test (toLowerCase keyword) (toLowerCase cv)"
    using assms by (simp add: matchKeywords_lists(1) [OF assms(1) ne])
  show "keyword \<in> set (missing (matchKeywords cv kws))
           \<longleftrightarrow> \<not> keyword_test (toLowerCase keyword) (toLowerCase cv)"
    using assms by (simp add: matchKeywords_lists(2) [OF assms(1) ne])
qed

lemma checkKeywordMatch_iff:
  assumes "ascii_only cv" "ascii_only keyword"
  shows "checkKeywordMatch (toLowerCase cv) keyword \<longleftrightarrow>
     includes_str (toLowerCase cv) (toLowerCase keyword)"
proof -
  have "checkKeywordMatch (toLowerCase cv) keyword \<longleftrightarrow>
      keyword_test (toLowerCase keyword) (toLowerCase cv) \<or>
      includes_str (toLowerCase cv) (toLowerCase keyword)"
    by (simp add: checkKeywordMatch_def keyword_test_def Let_def)
  with keyword_test_includes [OF assms(2,1)] assms show ?thesis
    by (auto simp: toLowerCase_ascii)
qed

text \<open>\<open>followed_occurrence\<close> finds the occurrences that a word character follows.\<close>

lemma followed_at_iff:
  "followed_at kw s \<longleftrightarrow>
     (\<exists>m post. s = m @ post \<and> map canonicalize m = map canonicalize kw \<and> post \<noteq> [] \<and> is_word (hd post))"
proof
  assume f: "followed_at kw s"
  then have l: "length kw < length s" by (simp add: followed_at_def)
  have "s = take (length kw) s @ drop (length kw) s" by simp
  moreover have "drop (length kw) s \<noteq> []" using l by simp
  moreover have "hd (drop (length kw) s) = s ! length kw"
    using l by (simp add: hd_drop_conv_nth)
  ultimately show "\<exists>m post. s = m @ post \<and> map canonicalize m = map canonicalize kw \<and> post \<noteq> [] \<and> is_word (hd post)"
    using f unfolding followed_at_def by metis
next
  assume "\<exists>m post. s = m @ post \<and> map canonicalize m = map canonicalize kw \<and> post \<noteq> [] \<and> is_word (hd post)"
  then obtain m post where o: "s = m @ post" "map canonicalize m = map canonicalize kw"
    "post \<noteq> []" "is_word (hd post)" by blast
  from o(2) have len: "length m = length kw" by (metis length_map)
  with o(1,3) have "length kw < length s" by (cases post) simp_all
  moreover from o(1) len have "take (length kw) s = m" by simp
  moreover from o(1,3) len have "s ! length kw = hd post"
    by (cases post) (simp_all add: nth_append)
  ultimately show "followed_at kw s"
    using o(2,4) by (simp add: followed_at_def)
qed

lemma followed_occurrence_iff:
  "followed_occurrence kw cv \<longleftrightarrow>
     (\<exists>pre m post. cv = pre @ m @ post \<and> map canonicalize m = map canonicalize kw \<and>
        post \<noteq> [] \<and> is_word (hd post))"
proof (induction cv)
  case Nil
  show ?case by simp
next
  case (Cons x xs)
  show ?case
  proof
    assume "followed_occurrence kw (x # xs)"
    then have "followed_at kw (x # xs) \<or> followed_occurrence kw xs" by simp
    then show "\<exists>pre m post. x # xs = pre @ m @ post \<and> map canonicalize m = map canonicalize kw \<and>
        post \<noteq> [] \<and> is_word (hd post)"
    proof
      assume "followed_at kw (x # xs)"
      then obtain m post where "x # xs = m @ post" "map canonicalize m = map canonicalize kw"
        "post \<noteq> []" "is_word (hd post)" unfolding followed_at_iff by blast
      then show ?thesis by (intro exI [of _ "[]"] exI [of _ m] exI [of _ post]) simp
    next
      assume "followed_occurrence kw xs"
      then obtain pre m post where "xs = pre @ m @ post" "map canonicalize m = map canonicalize kw"
        "post \<noteq> []" "is_word (hd post)" unfolding Cons.IH by blast
      then show ?thesis by (intro exI [of _ "x # pre"] exI [of _ m] exI [of _ post]) simp
    qed
  next
    assume "\<exists>pre m post. x # xs = pre @ m @ post \<and> map canonicalize m = map canonicalize kw \<and>
        post \<noteq> [] \<and> is_word (hd post)"
    then obtain pre m post where o: "x # xs = pre @ m @ post" "map canonicalize m = map canonicalize kw"
        "post \<noteq> []" "is_word (hd post)" by blast
    show "followed_occurrence kw (x # xs)"
    proof (cases pre)
      case Nil
      with o have "followed_at kw (x # xs)" unfolding followed_at_iff by auto
      then show ?thesis by simp
    next
      case (Cons y ys)
      with o(1) have "xs = ys @ m @ post" by simp
      with o(2,3,4) have "followed_occurrence kw xs" unfolding Cons.IH by blast
      then show ?thesis by simp
    qed
  qed
qed

lemma keyword_test_followed:
  assumes "keyword \<noteq> []" "\<not> is_word (last keyword)" "keyword_test keyword cv"
  shows "followed_occurrence keyword cv"
proof -
  from keyword_test_occurrence [OF assms(3)] obtain pre m post where
    o: "cv = pre @ m @ post" "map canonicalize m = map canonicalize keyword"
      "is_word_at (last_char (last_char None pre) m) \<noteq> is_word_at (next_char post)"
    by blast
  from o(2) assms(1) have mne: "m \<noteq> []" by auto
  from o(2) have "length m = length keyword" by (metis length_map)
  with o(2) mne assms(1) have "canonicalize (last m) = canonicalize (last keyword)"
    by (metis last_map)
  then have "is_word (last m) = is_word (last keyword)"
    by (rule canonicalize_eq_is_word)
  with assms(2) mne have "\<not> is_word_at (last_char (last_char None pre) m)"
    by (simp add: last_char_def is_word_at_def)
  with o(3) have "is_word_at (next_char post)" by simp
  then have "post \<noteq> [] \<and> is_word (hd post)"
    by (cases post) (simp_all add: is_word_at_def next_char_def)
  with o(1,2) show ?thesis unfolding followed_occurrence_iff by blast
qed

lemma code_points_Nil [simp]: "code_points s = [] \<longleftrightarrow> s = []"
  by (induction s rule: code_points.induct) simp_all

lemma lower_from_Nil [simp]: "lower_from front ps = [] \<longleftrightarrow> ps = []"
  by (cases ps) (simp_all add: lower_point_def)

lemma toLowerCase_Nil [simp]: "toLowerCase s = [] \<longleftrightarrow> s = []"
proof
  assume e: "toLowerCase s = []"
  show "s = []"
  proof (rule ccontr)
    assume "s \<noteq> []"
    then obtain p ps where "lower_from [] (code_points s) = p # ps"
      by (cases "lower_from [] (code_points s)") simp_all
    with e show False by (simp add: toLowerCase_def utf16_def split: if_splits)
  qed
qed (simp add: toLowerCase_def)

section \<open>The matcher: partition and score\<close>

text \<open>
  Claim C1, as the code has it. For a non-empty CV text and a non-empty keyword list,
  \<open>matched\<close> and \<open>missing\<close> partition the keyword list (every keyword is on exactly one of
  the two, none on both), \<open>matchCount\<close> is the length of \<open>matched\<close>, and the score is
  \<^verbatim>\<open>Math.round((matchCount / totalKeywords) * 100)\<close> as the doubles give it: the quotient
  and the product are each rounded to a double before \<^verbatim>\<open>Math.round\<close>. When the text or the
  keyword list is empty the guard of \<open>matchKeywords\<close> returns two empty lists and the score 0.
  In every case the score lies between 0 and 100.
\<close>

theorem matchKeywords_partition_score:
  "(cvText \<noteq> [] \<and> keywords \<noteq> [] \<longrightarrow>
      mset (matched (matchKeywords cvText keywords)) + mset (missing (matchKeywords cvText keywords))
        = mset keywords \<and>
      set (matched (matchKeywords cvText keywords)) \<inter> set (missing (matchKeywords cvText keywords)) = {} \<and>
      matchCount (matchKeywords cvText keywords) = length (matched (matchKeywords cvText keywords)) \<and>
      totalKeywords (matchKeywords cvText keywords) = Some (length keywords) \<and>
      matchScore (matchKeywords cvText keywords)
        = js_round (fl (fl (of_nat (matchCount (matchKeywords cvText keywords))
                              / of_nat (length keywords)) * 100))) \<and>
   (cvText = [] \<or> keywords = [] \<longrightarrow>
      matched (matchKeywords cvText keywords) = [] \<and> missing (matchKeywords cvText keywords) = [] \<and>
      matchScore (matchKeywords cvText keywords) = 0) \<and>
   0 \<le> matchScore (matchKeywords cvText keywords) \<and> matchScore (matchKeywords cvText keywords) \<le> 100"
proof (intro conjI impI)
  assume "cvText \<noteq> [] \<and> keywords \<noteq> []"
  then have ne: "cvText \<noteq> []" "keywords \<noteq> []" by simp_all
  note lists = matchKeywords_lists [OF ne]
  show "mset (matched (matchKeywords cvText keywords)) + mset (missing (matchKeywords cvText keywords))
        = mset keywords"
    unfolding lists by (rule mset_filter_partition)
  show "set (matched (matchKeywords cvText keywords)) \<inter> set (missing (matchKeywords cvText keywords)) = {}"
    unfolding lists by auto
  show "matchCount (matchKeywords cvText keywords) = length (matched (matchKeywords cvText keywords))"
    using ne by (simp add: matchKeywords_def Let_def)
  show "totalKeywords (matchKeywords cvText keywords) = Some (length keywords)"
    using ne by (simp add: matchKeywords_def Let_def)
  show "matchScore (matchKeywords cvText keywords)
        = js_round (fl (fl (of_nat (matchCount (matchKeywords cvText keywords))
                              / of_nat (length keywords)) * 100))"
    using ne by (simp add: matchKeywords_def Let_def percent_def)
next
  assume e: "cvText = [] \<or> keywords = []"
  then show "matched (matchKeywords cvText keywords) = []"
    "missing (matchKeywords cvText keywords) = []"
    "matchScore (matchKeywords cvText keywords) = 0"
    by (auto simp: matchKeywords_def)
next
  show "0 \<le> matchScore (matchKeywords cvText keywords)"
    "matchScore (matchKeywords cvText keywords) \<le> 100"
    using matchKeywords_score_bounds by simp_all
qed

lemma matchKeywords_example:
  "matchKeywords (ascii ''I know Python and SQL.'') [ascii ''python'', ascii ''java'', ascii ''sql'']
   = \<lparr>matched = [ascii ''python'', ascii ''sql''], missing = [ascii ''java''], matchScore = 67,
      matchCount = 2, totalKeywords = Some 3\<rparr>"
  by code_simp

text \<open>With 23 keywords of 40 matched the quotient 0.575 times 100 is the double just below
  57.5, and the score is 57, where exact arithmetic would give 58.\<close>

lemma matchKeywords_double_example:
  "matchScore (matchKeywords (ascii ''a'') (replicate 23 (ascii ''a'') @ replicate 17 (ascii ''b''))) = 57"
  "matchCount (matchKeywords (ascii ''a'') (replicate 23 (ascii ''a'') @ replicate 17 (ascii ''b''))) = 23"
  "fl (fl (23 / 40) * 100) < 115 / 2"
  by code_simp+

theorem matchKeywords_partition_score_witness:
  "mset [ascii ''python'', ascii ''sql''] + mset [ascii ''java'']
     = mset [ascii ''python'', ascii ''java'', ascii ''sql''] \<and>
   matchScore (matchKeywords (ascii ''I know Python and SQL.'')
     [ascii ''python'', ascii ''java'', ascii ''sql'']) = 67 \<and>
   js_round (fl (fl (of_nat 2 / of_nat 3) * 100)) = 67"
  using matchKeywords_partition_score [of "ascii ''I know Python and SQL.''"
      "[ascii ''python'', ascii ''java'', ascii ''sql'']"]
  unfolding matchKeywords_example by (simp add: ascii_def)

text \<open>
  The claim as stated ("for every CV text") fails at the empty text: the guard returns before the
  loop, and the keyword is on neither list.
\<close>

theorem matchKeywords_empty_text_counterexample:
  "ascii ''python'' \<notin> set (matched (matchKeywords [] [ascii ''python'']))
     \<union> set (missing (matchKeywords [] [ascii ''python'']))"
  by (simp add: matchKeywords_def)

section \<open>The three presence checks\<close>

text \<open>
  Claim C3, as the code has it. \<open>KeywordExtractor.matchKeywords\<close> lower-cases the text and
  the keyword before the test, so for a non-empty text and a non-empty keyword on the list it
  takes the decision that \<open>CVTailor.hasKeyword\<close> takes on the lower-cased text and keyword:
  the case-insensitive word-boundary test of the escaped keyword.
  \<open>KeywordChips.checkKeywordMatch\<close>, called on the lower-cased text as \<open>renderKeywordChips\<close>
  calls it, accepts whenever \<open>matchKeywords\<close> does. On ASCII text and keywords lower-casing
  changes no decision: \<open>matchKeywords\<close> and \<open>hasKeyword\<close> decide alike, and
  \<open>checkKeywordMatch\<close> accepts exactly when the lower-cased keyword is a substring of the
  lower-cased text, because after the pattern it falls back on
  \<^verbatim>\<open>cvLower.includes(keywordLower)\<close> ("python" matches "python3").
\<close>

theorem presence_checks_compared:
  "cv \<noteq> [] \<and> keyword \<noteq> [] \<and> keyword \<in> set kws \<longrightarrow>
     (keyword \<in> set (matched (matchKeywords cv kws))
        \<longleftrightarrow> hasKeyword (toLowerCase cv) (toLowerCase keyword)) \<and>
     (keyword \<in> set (missing (matchKeywords cv kws))
        \<longleftrightarrow> \<not> hasKeyword (toLowerCase cv) (toLowerCase keyword)) \<and>
     (keyword \<in> set (matched (matchKeywords cv kws)) \<longrightarrow> checkKeywordMatch (toLowerCase cv) keyword) \<and>
     (ascii_only cv \<and> ascii_only keyword \<longrightarrow>
        (keyword \<in> set (matched (matchKeywords cv kws)) \<longleftrightarrow> hasKeyword cv keyword) \<and>
        (keyword \<in> set (missing (matchKeywords cv kws)) \<longleftrightarrow> \<not> hasKeyword cv keyword) \<and>
        (hasKeyword cv keyword \<longrightarrow> checkKeywordMatch (toLowerCase cv) keyword) \<and>
        (checkKeywordMatch (toLowerCase cv) keyword \<longleftrightarrow>
           includes_str (toLowerCase cv) (toLowerCase keyword)))"
proof (intro impI, elim conjE)
  assume a: "cv \<noteq> []" "keyword \<noteq> []" "keyword \<in> set kws"
  note m = matched_iff_lowered [OF a(1,3)]
  have h: "hasKeyword (toLowerCase cv) (toLowerCase keyword)
      \<longleftrightarrow> keyword_test (toLowerCase keyword) (toLowerCase cv)"
    using a by (simp add: hasKeyword_def)
  have c: "keyword_test (toLowerCase keyword) (toLowerCase cv)
      \<longrightarrow> checkKeywordMatch (toLowerCase cv) keyword"
    by (simp add: checkKeywordMatch_def keyword_test_def Let_def)
  have p: "ascii_only cv \<and> ascii_only keyword \<longrightarrow>
      (keyword_test (toLowerCase keyword) (toLowerCase cv) \<longleftrightarrow> hasKeyword cv keyword) \<and>
      (checkKeywordMatch (toLowerCase cv) keyword \<longleftrightarrow>
         includes_str (toLowerCase cv) (toLowerCase keyword))"
    using a keyword_test_lower [of keyword cv] checkKeywordMatch_iff [of cv keyword]
    by (simp add: hasKeyword_def)
  from m h c p
  show "(keyword \<in> set (matched (matchKeywords cv kws))
        \<longleftrightarrow> hasKeyword (toLowerCase cv) (toLowerCase keyword)) \<and>
     (keyword \<in> set (missing (matchKeywords cv kws))
        \<longleftrightarrow> \<not> hasKeyword (toLowerCase cv) (toLowerCase keyword)) \<and>
     (keyword \<in> set (matched (matchKeywords cv kws)) \<longrightarrow> checkKeywordMatch (toLowerCase cv) keyword) \<and>
     (ascii_only cv \<and> ascii_only keyword \<longrightarrow>
        (keyword \<in> set (matched (matchKeywords cv kws)) \<longleftrightarrow> hasKeyword cv keyword) \<and>
        (keyword \<in> set (missing (matchKeywords cv kws)) \<longleftrightarrow> \<not> hasKeyword cv keyword) \<and>
        (hasKeyword cv keyword \<longrightarrow> checkKeywordMatch (toLowerCase cv) keyword) \<and>
        (checkKeywordMatch (toLowerCase cv) keyword \<longleftrightarrow>
           includes_str (toLowerCase cv) (toLowerCase keyword)))"
    by blast
qed

lemma hasKeyword_example:
  "hasKeyword (ascii ''Senior Python developer'') (ascii ''python'')"
  "ascii_only (ascii ''Senior Python developer'')"
  "ascii_only (ascii ''python'')"
  by code_simp+

theorem presence_checks_compared_witness:
  "ascii ''python'' \<in> set (matched (matchKeywords (ascii ''Senior Python developer'')
      [ascii ''java'', ascii ''python''])) \<and>
   hasKeyword (ascii ''Senior Python developer'') (ascii ''python'') \<and>
   checkKeywordMatch (toLowerCase (ascii ''Senior Python developer'')) (ascii ''python'') \<and>
   includes_str (toLowerCase (ascii ''Senior Python developer'')) (toLowerCase (ascii ''python''))"
proof -
  have "ascii ''Senior Python developer'' \<noteq> [] \<and> ascii ''python'' \<noteq> [] \<and>
      ascii ''python'' \<in> set [ascii ''java'', ascii ''python'']"
    by (simp add: ascii_def)
  with presence_checks_compared [of "ascii ''Senior Python developer''" "ascii ''python''"
      "[ascii ''java'', ascii ''python'']"]
    hasKeyword_example
  show ?thesis by blast
qed

text \<open>
  The three checks do not agree on every text. In \<open>python3\<close> the keyword \<open>python\<close> is not
  followed by a word boundary, so the matcher and \<open>hasKeyword\<close> report it missing, and the
  substring fallback of \<open>checkKeywordMatch\<close> reports it present. And the text that is the one
  code unit U+212A (the Kelvin sign), which \<open>toLowerCase\<close> turns into \<open>k\<close>, has the keyword
  \<open>k\<close> for the matcher and not for \<open>hasKeyword\<close>.
\<close>

theorem presence_checks_substring_counterexample:
  "\<not> hasKeyword (ascii ''python3'') (ascii ''python'') \<and>
   ascii ''python'' \<in> set (missing (matchKeywords (ascii ''python3'') [ascii ''python''])) \<and>
   checkKeywordMatch (toLowerCase (ascii ''python3'')) (ascii ''python'') \<and>
   ascii ''k'' \<in> set (matched (matchKeywords [0x212A] [ascii ''k''])) \<and>
   \<not> hasKeyword [0x212A] (ascii ''k'')"
  by code_simp

section \<open>Keywords that end in a character outside the word class\<close>

text \<open>
  Claim C10, as the code has it. When the last character of a keyword is not a word character
  (\<open>c++\<close>, \<open>c#\<close>), \<open>hasKeyword\<close> reports it present only if the text has an occurrence of the
  keyword (ignoring case) that is immediately followed by a word character: the closing
  \<^verbatim>\<open>\b\<close> needs a word character on one side, and the keyword's side has none.
  \<open>matchKeywords\<close> tests the lower-cased keyword on the lower-cased text: when the lower-cased
  keyword ends in a character that is not a word character, it reports the keyword present only
  if the lower-cased text has an occurrence of the lower-cased keyword that a word character
  follows. For an ASCII keyword and text that is an occurrence of the keyword in the text
  itself. So \<open>c++\<close> followed by a space, by punctuation or by the end of the text is not
  matched (lemma \<open>cpp_examples\<close> evaluates three such texts).
\<close>

theorem nonword_final_needs_word_after:
  assumes "keyword \<noteq> []"
  shows "(\<not> is_word (last keyword) \<and> hasKeyword cv keyword \<longrightarrow>
           (\<exists>pre m post. cv = pre @ m @ post \<and> map canonicalize m = map canonicalize keyword \<and>
              post \<noteq> [] \<and> is_word (hd post))) \<and>
         (\<not> is_word (last (toLowerCase keyword)) \<and> keyword \<in> set (matched (matchKeywords cv kws)) \<longrightarrow>
           (\<exists>pre m post. toLowerCase cv = pre @ m @ post \<and>
              map canonicalize m = map canonicalize (toLowerCase keyword) \<and>
              post \<noteq> [] \<and> is_word (hd post))) \<and>
         (ascii_only keyword \<and> ascii_only cv \<and> \<not> is_word (last keyword) \<and>
            keyword \<in> set (matched (matchKeywords cv kws)) \<longrightarrow>
           (\<exists>pre m post. cv = pre @ m @ post \<and> map canonicalize m = map canonicalize keyword \<and>
              post \<noteq> [] \<and> is_word (hd post)))"
proof (intro conjI impI, goal_cases)
  case 1
  then have "keyword_test keyword cv" by (simp add: hasKeyword_def split: if_splits)
  with assms 1 have "followed_occurrence keyword cv" by (intro keyword_test_followed) simp_all
  then show ?case unfolding followed_occurrence_iff .
next
  case 2
  then have m: "keyword \<in> set (matched (matchKeywords cv kws))" by simp
  then have "cv \<noteq> []" "kws \<noteq> []" by (auto simp: matchKeywords_def split: if_splits)
  with m have "keyword_test (toLowerCase keyword) (toLowerCase cv)"
    by (simp add: matchKeywords_lists(1))
  with assms 2 have "followed_occurrence (toLowerCase keyword) (toLowerCase cv)"
    by (intro keyword_test_followed) simp_all
  then show ?case unfolding followed_occurrence_iff .
next
  case 3
  then have m: "keyword \<in> set (matched (matchKeywords cv kws))" by simp
  then have "cv \<noteq> []" "kws \<noteq> []" by (auto simp: matchKeywords_def split: if_splits)
  with m have "keyword_test (toLowerCase keyword) (toLowerCase cv)"
    by (simp add: matchKeywords_lists(1))
  with 3 have "keyword_test keyword cv"
    by (simp add: keyword_test_lower)
  with assms 3 have "followed_occurrence keyword cv" by (intro keyword_test_followed) simp_all
  then show ?case unfolding followed_occurrence_iff .
qed

lemma cpp_examples:
  "hasKeyword (ascii ''uses c++17 daily'') (ascii ''c++'')"
  "\<not> is_word (last (ascii ''c++''))"
  "ascii ''c++'' \<noteq> []"
  "\<not> hasKeyword (ascii ''Expert in C++ and Java.'') (ascii ''c++'')"
  "\<not> hasKeyword (ascii ''Expert in Java, C++'') (ascii ''c++'')"
  "missing (matchKeywords (ascii ''Expert in C++, Java.'') [ascii ''c++'', ascii ''java''])
     = [ascii ''c++'']"
  by code_simp+

theorem nonword_final_needs_word_after_witness:
  "\<exists>pre m post. ascii ''uses c++17 daily'' = pre @ m @ post \<and>
      map canonicalize m = map canonicalize (ascii ''c++'') \<and> post \<noteq> [] \<and> is_word (hd post)"
  using nonword_final_needs_word_after [of "ascii ''c++''" "ascii ''uses c++17 daily''" "[]"]
    cpp_examples(1,2,3)
  by simp

text \<open>
  The claim as stated fails for \<open>matchKeywords\<close> outside ASCII. In the text \<open>C++\<close> followed
  by U+0130 (the capital I with a dot) the keyword \<open>c++\<close> is followed by a character that is
  not a word character, so the text has no occurrence that a word character follows; the
  lower-cased text is \<open>c++i\<close> and a combining dot, and the matcher reports the keyword present.
  (\<open>followed_occurrence\<close> is the search for such an occurrence, lemma
  \<open>followed_occurrence_iff\<close>.)
\<close>

theorem nonword_final_lowercase_counterexample:
  "\<not> is_word (last (ascii ''c++'')) \<and>
   ascii ''c++'' \<in> set (matched (matchKeywords (ascii ''C++'' @ [0x130]) [ascii ''c++''])) \<and>
   \<not> followed_occurrence (ascii ''c++'') (ascii ''C++'' @ [0x130])"
  by code_simp
end
